theory Spec2Isabelle
  imports Main "HOL-Library.Sublist"
begin

section \<open>Slug derivation\<close>

text \<open>
  The three copies of \<^verbatim>\<open>slugify\<close> (the download script and both data-access modules)
  are the same chain:
  \<^verbatim>\<open>
  text.toLowerCase()
      .replace(/[aeoeuess]/g, (char) => map[char] || char)   -- the class is a-umlaut, o-umlaut, u-umlaut, sharp s
      .replace(/[^a-z0-9]+/g, '-')
      .replace(/(^-|-$)/g, '')
  \<close>
  A JavaScript string is a sequence of UTF-16 code units, and the regular expressions
  have no \<^verbatim>\<open>u\<close> flag, so they work unit by unit. A string is modelled as the list
  of its code units.
\<close>

type_synonym jsstring = "nat list"

definition of_ascii :: "string \<Rightarrow> jsstring" where
  "of_ascii s = map of_char s"

text \<open>
  \<^verbatim>\<open>String.prototype.toLowerCase\<close> on one code unit. The cases written out are the
  capitals of ASCII and Latin-1 and the three letters outside Latin-1 whose lower case
  lies in it or in ASCII (dotted capital I, capital sharp s, the Kelvin sign). Every other
  unit is left as it is: its lower case, like itself, is outside \<open>a-z\<close>, \<open>0-9\<close> and the
  four letters the second step rewrites, so the slug does not depend on it.
\<close>

definition toLowerCaseUnit :: "nat \<Rightarrow> jsstring" where
  "toLowerCaseUnit c =
     (if 65 \<le> c \<and> c \<le> 90 then [c + 32]
      else if (192 \<le> c \<and> c \<le> 214) \<or> (216 \<le> c \<and> c \<le> 222) then [c + 32]
      else if c = 304 then [105, 775]
      else if c = 7838 then [223]
      else if c = 8490 then [107]
      else [c])"

definition toLowerCase :: "jsstring \<Rightarrow> jsstring" where
  "toLowerCase s = concat (map toLowerCaseUnit s)"

text \<open>The lookup table of the replacer: 228, 246, 252 and 223 are the code units of
  a-umlaut, o-umlaut, u-umlaut and sharp s.\<close>

definition umlautMap :: "nat \<Rightarrow> jsstring" where
  "umlautMap c =
     (if c = 228 then of_ascii ''ae''
      else if c = 246 then of_ascii ''oe''
      else if c = 252 then of_ascii ''ue''
      else if c = 223 then of_ascii ''ss''
      else [c])"

definition replaceUmlauts :: "jsstring \<Rightarrow> jsstring" where
  "replaceUmlauts s = concat (map umlautMap s)"

definition hyphen :: nat where
  "hyphen = 45"

text \<open>The character class \<open>[a-z0-9]\<close>.\<close>

definition isSlugChar :: "nat \<Rightarrow> bool" where
  "isSlugChar c = ((97 \<le> c \<and> c \<le> 122) \<or> (48 \<le> c \<and> c \<le> 57))"

text \<open>
  \<^verbatim>\<open>.replace(/[^a-z0-9]+/g, '-')\<close>: every maximal run of units outside the class
  becomes one hyphen. The flag says whether the scan is inside such a run, whose hyphen
  has been written already.
\<close>

fun collapseRuns :: "bool \<Rightarrow> jsstring \<Rightarrow> jsstring" where
  "collapseRuns inRun [] = []"
| "collapseRuns inRun (c # cs) =
     (if isSlugChar c then c # collapseRuns False cs
      else if inRun then collapseRuns True cs
      else hyphen # collapseRuns True cs)"

text \<open>\<^verbatim>\<open>.replace(/(^-|-$)/g, '')\<close>: one hyphen at the start and one at the end are
  removed.\<close>

definition stripEdges :: "jsstring \<Rightarrow> jsstring" where
  "stripEdges s =
     (let s1 = (case s of [] \<Rightarrow> [] | c # cs \<Rightarrow> if c = hyphen then cs else s)
      in if s1 \<noteq> [] \<and> last s1 = hyphen then butlast s1 else s1)"

definition slugify :: "jsstring \<Rightarrow> jsstring" where
  "slugify text = stripEdges (collapseRuns False (replaceUmlauts (toLowerCase text)))"

text \<open>No two hyphens stand side by side: the invariant of \<open>collapseRuns\<close> that makes
  removing one hyphen at each end enough.\<close>

fun noDoubleHyphen :: "jsstring \<Rightarrow> bool" where
  "noDoubleHyphen (a # b # r) = (\<not> (a = hyphen \<and> b = hyphen) \<and> noDoubleHyphen (b # r))"
| "noDoubleHyphen r = True"

section \<open>The article records and their display helpers\<close>

text \<open>
  \<^verbatim>\<open>interface NewsArticle\<close> of the data-access modules. The fields \<^verbatim>\<open>id\<close> and
  \<^verbatim>\<open>image\<close> carry a suffix, since both names are constants of HOL.
\<close>

record NewsArticle =
  id_field :: string
  title :: string
  date :: string
  category :: string
  excerpt :: string
  content :: string
  image_field :: "string option"
  author :: string
  slug :: string

text \<open>
  \<^verbatim>\<open>
  export async function getNewsByCategory(category) {
    const articles = await getPublishedNews();
    if (category === 'Alle') return articles;
    return articles.filter(article => article.category === category);
  }
  \<close>
  The list \<open>articles\<close> is what \<^verbatim>\<open>getPublishedNews\<close> returned, the answer of the
  content source after shaping; the two modules that have the function agree on it.
\<close>

definition getNewsByCategory :: "NewsArticle list \<Rightarrow> string \<Rightarrow> NewsArticle list" where
  "getNewsByCategory articles cat =
     (if cat = ''Alle'' then articles
      else filter (\<lambda>article. category article = cat) articles)"

text \<open>
  \<^verbatim>\<open>formatDate\<close> exists in three copies. All build \<^verbatim>\<open>new Date(dateString)\<close> and
  call \<^verbatim>\<open>toLocaleDateString('de-DE', ...)\<close>. The parser and the locale rendering belong
  to the JavaScript runtime and are parameters: \<open>parse\<close> gives \<open>None\<close> where the runtime
  builds an invalid date (time value NaN), and \<open>render\<close> is the rendering of a valid date,
  \<open>Inl\<close> when it throws. On an invalid date \<^verbatim>\<open>toLocaleDateString\<close> returns the string
  \<^verbatim>\<open>Invalid Date\<close>. A result \<open>Inl\<close> is an exception that leaves the function.

  The copy with a fallback:
  \<^verbatim>\<open>
  if (!dateString) { return 'Kein Datum'; }
  try {
    const date = new Date(dateString);
    if (isNaN(date.getTime())) { return 'Kein Datum'; }
    return date.toLocaleDateString('de-DE', {...});
  } catch (e) { return 'Kein Datum'; }
  \<close>
\<close>

definition formatDate ::
  "(string \<Rightarrow> 'd option) \<Rightarrow> ('d \<Rightarrow> string + string) \<Rightarrow> string \<Rightarrow> string + string" where
  "formatDate parse render dateString =
     (if dateString = [] then Inr ''Kein Datum''
      else case parse dateString of
        None \<Rightarrow> Inr ''Kein Datum''
      | Some d \<Rightarrow> (case render d of Inl e \<Rightarrow> Inr ''Kein Datum'' | Inr s \<Rightarrow> Inr s))"

text \<open>
  The two other copies have neither the test nor the handler:
  \<^verbatim>\<open>
  const date = new Date(dateString);
  return date.toLocaleDateString('de-DE', {...});
  \<close>
\<close>

definition formatDate_plain ::
  "(string \<Rightarrow> 'd option) \<Rightarrow> ('d \<Rightarrow> string + string) \<Rightarrow> string \<Rightarrow> string + string" where
  "formatDate_plain parse render dateString =
     (case parse dateString of
        None \<Rightarrow> Inr ''Invalid Date''
      | Some d \<Rightarrow> render d)"

text \<open>A runtime for the examples: one ISO date parses, to its day, month and year, and
  is rendered as the German locale does.\<close>

definition sampleParse :: "string \<Rightarrow> (nat \<times> nat \<times> nat) option" where
  "sampleParse s = (if s = ''2024-05-01'' then Some (1, 5, 2024) else None)"

definition sampleRender :: "nat \<times> nat \<times> nat \<Rightarrow> string + string" where
  "sampleRender d = (if d = (1, 5, 2024) then Inr ''01. Mai 2024'' else Inl ''RangeError'')"

text \<open>An article for the examples, with the given identifier and category.\<close>

definition sampleArticle :: "string \<Rightarrow> string \<Rightarrow> NewsArticle" where
  "sampleArticle i c =
     \<lparr>id_field = i, title = ''Ohne Titel'', date = ''2024-05-01'', category = c,
      excerpt = [], content = [], image_field = None, author = ''SV Staden'',
      slug = ''ohne-titel''\<rparr>"

section \<open>The image download of the Fetcher\<close>

type_synonym path = string
type_synonym bytes = "nat list"
type_synonym filesystem = "path \<rightharpoonup> bytes"










section \<open>The image optimizer\<close>

subsection \<open>Paths and strings\<close>

text \<open>
  Paths are byte strings. \<^verbatim>\<open>path.extname\<close> of Node, for a path that does not end in a
  slash: the part of the last path component from its last dot on; empty when the
  component has no dot, when its only dot is its first character, or when it is
  \<^verbatim>\<open>..\<close>.
\<close>

definition basename :: "path \<Rightarrow> string" where
  "basename p = rev (takeWhile (\<lambda>c. c \<noteq> CHR ''/'') (rev p))"

definition extname :: "path \<Rightarrow> string" where
  "extname p =
     (let b = basename p;
          e = rev (takeWhile (\<lambda>c. c \<noteq> CHR ''.'') (rev b))
      in if CHR ''.'' \<notin> set b then []
         else if length e + 1 = length b then []
         else if b = ''..'' then []
         else CHR ''.'' # e)"

text \<open>\<^verbatim>\<open>toLowerCase\<close> on an extension. Only the ASCII letters matter: no other character
  has a lower case among the letters of the supported extensions.\<close>

definition lowerAsciiChar :: "char \<Rightarrow> char" where
  "lowerAsciiChar c =
     (case map_of (zip ''ABCDEFGHIJKLMNOPQRSTUVWXYZ'' ''abcdefghijklmnopqrstuvwxyz'') c of
        None \<Rightarrow> c
      | Some l \<Rightarrow> l)"

definition lowerAscii :: "string \<Rightarrow> string" where
  "lowerAscii s = map lowerAsciiChar s"

text \<open>\<^verbatim>\<open>s.includes(pat)\<close>.\<close>

fun includesStr :: "string \<Rightarrow> string \<Rightarrow> bool" where
  "includesStr [] pat = (pat = [])"
| "includesStr (c # cs) pat = (prefix pat (c # cs) \<or> includesStr cs pat)"

text \<open>\<^verbatim>\<open>s.replace(pat, rep)\<close> with a string pattern: the first occurrence of \<open>pat\<close> is
  replaced, and a string without one is returned as it is.\<close>

fun replaceFirst :: "string \<Rightarrow> string \<Rightarrow> string \<Rightarrow> string" where
  "replaceFirst pat rep [] = (if pat = [] then rep else [])"
| "replaceFirst pat rep (c # cs) =
     (if prefix pat (c # cs) then rep @ drop (length pat) (c # cs)
      else c # replaceFirst pat rep cs)"

text \<open>\<^verbatim>\<open>path.join(dirPath, file)\<close> for a directory path without a trailing slash and a
  file name as \<^verbatim>\<open>readdirSync\<close> lists it.\<close>

definition joinPath :: "path \<Rightarrow> string \<Rightarrow> path" where
  "joinPath dirPath file = dirPath @ ''/'' @ file"

subsection \<open>Configuration\<close>

definition maxWidth :: nat where
  "maxWidth = 1920"

definition newsMaxWidth :: nat where
  "newsMaxWidth = 1200"

definition supportedFormats :: "string list" where
  "supportedFormats = [''.jpg'', ''.jpeg'', ''.png'', ''.webp'']"

text \<open>\<^verbatim>\<open>CONFIG.imageDirs\<close>: both paths are joined from the directory above the script's,
  here \<open>root\<close>.\<close>

definition imageDirs :: "path \<Rightarrow> path list" where
  "imageDirs root = [root @ ''/public/images'', root @ ''/public/images/news'']"

subsection \<open>State and environment\<close>

text \<open>A cache entry, the value \<^verbatim>\<open>{hash, optimized, originalSize, optimizedSize,
  timestamp}\<close> stored under the file's path.\<close>

record cache_entry =
  hash :: string
  optimized :: bool
  originalSize :: nat
  optimizedSize :: nat
  timestamp :: string

text \<open>
  The state the script works on: the files on disk, the global \<^verbatim>\<open>imageCache\<close> object,
  and the parsed content of the cache file \<^verbatim>\<open>.image-cache.json\<close> (\<open>None\<close> when the
  file is missing or does not parse). Writing the cache as JSON and parsing it again
  gives the same entries.
\<close>

record state =
  files :: filesystem
  imageCache :: "path \<rightharpoonup> cache_entry"
  cacheFile :: "(path \<rightharpoonup> cache_entry) option"

datatype format = Jpeg | Png | Webp

text \<open>
  What the script takes from outside: the MD5 digest, the image library (\<open>metadata\<close>
  gives the width, which may be undefined, or the message of the error it raises;
  \<open>encode\<close> runs the pipeline, with the width to resize to if any and the output format
  with the configured settings, and gives the encoded bytes or the message of the error),
  the directory listings (\<open>None\<close> for a directory that does not exist; one that exists
  can be read) and whether the cache file can be written.
\<close>

record env =
  fileHash :: "bytes \<Rightarrow> string"
  metadata :: "bytes \<Rightarrow> string + nat option"
  encode :: "format \<Rightarrow> nat option \<Rightarrow> bytes \<Rightarrow> string + bytes"
  readdir :: "path \<Rightarrow> string list option"
  cacheWritable :: bool

text \<open>An exception that no handler of the script catches: reading a file that is not
  there. It ends the run; the state is the one reached when it is raised.\<close>

datatype crash = ENOENT path

datatype skip_reason = UnsupportedFormat | AlreadyOptimized | NoImprovement

text \<open>
  The object \<^verbatim>\<open>optimizeImage\<close> returns: \<^verbatim>\<open>{success: true, resized, originalSize,
  optimizedSize, savedBytes, savedPercent}\<close>, \<^verbatim>\<open>{skipped: true, reason}\<close> with one of
  three reasons, or \<^verbatim>\<open>{error: message}\<close>. The display-only \<^verbatim>\<open>savedPercent\<close>, a rounded
  floating-point quotient, is left out.
\<close>

datatype outcome =
    Success bool nat nat int
  | Skipped skip_reason
  | Error string

subsection \<open>One image\<close>

text \<open>
  \<^verbatim>\<open>
  function isOptimized(filepath, hash) {
    const cached = imageCache[filepath];
    if (!cached) return false;
    if (cached.hash !== hash) return false;
    if (!cached.optimized) return false;
    return true;
  }
  \<close>
\<close>

definition isOptimized :: "(path \<rightharpoonup> cache_entry) \<Rightarrow> path \<Rightarrow> string \<Rightarrow> bool" where
  "isOptimized cache filepath h =
     (case cache filepath of
        None \<Rightarrow> False
      | Some cached \<Rightarrow>
          if hash cached \<noteq> h then False
          else if \<not> optimized cached then False
          else True)"

text \<open>
  \<^verbatim>\<open>sharp(input).<format>(...).toFile(output)\<close>: the library refuses an output path that
  is its input path, fails on a missing input and on an error of the encoder, and
  otherwise writes the encoded bytes to the output path.
\<close>

definition toFile ::
  "(bytes \<Rightarrow> string + bytes) \<Rightarrow> path \<Rightarrow> path \<Rightarrow> filesystem \<Rightarrow> string + filesystem" where
  "toFile enc input output fs =
     (if input = output then Inl ''Cannot use same file for input and output''
      else case fs input of
          None \<Rightarrow> Inl ''Input file is missing''
        | Some b \<Rightarrow> (case enc b of Inl e \<Rightarrow> Inl e | Inr b' \<Rightarrow> Inr (fs(output \<mapsto> b'))))"

text \<open>The branch of the format-specific re-encoding that the extension selects.\<close>

definition formatOf :: "string \<Rightarrow> format option" where
  "formatOf ext =
     (if ext = ''.jpg'' \<or> ext = ''.jpeg'' then Some Jpeg
      else if ext = ''.png'' then Some Png
      else if ext = ''.webp'' then Some Webp
      else None)"

text \<open>The width the pipeline resizes to: the bound of the subtree, when the image is
  wider (\<^verbatim>\<open>metadata.width && metadata.width > maxWidth\<close>).\<close>

definition resizeTo :: "path \<Rightarrow> nat option \<Rightarrow> nat option" where
  "resizeTo filepath width =
     (let isNewsImage = includesStr filepath ''/news/'';
          bound = (if isNewsImage then newsMaxWidth else maxWidth)
      in case width of
           None \<Rightarrow> None
         | Some w \<Rightarrow> if w \<noteq> 0 \<and> w > bound then Some bound else None)"

text \<open>
  The body of the \<^verbatim>\<open>try\<close> block of \<^verbatim>\<open>optimizeImage\<close>. \<open>Inl\<close> is an exception, with
  its message and the state in which it is raised; the handler turns it into the result
  \<^verbatim>\<open>{error: message}\<close>.
  \<^verbatim>\<open>
  const image = sharp(filepath);
  const metadata = await image.metadata();
  const isNewsImage = filepath.includes('/news/');
  const maxWidth = isNewsImage ? CONFIG.newsMaxWidth : CONFIG.maxWidth;
  let resized = false;
  let pipeline = image.clone();
  if (metadata.width && metadata.width > maxWidth) {
    pipeline = pipeline.resize(maxWidth, null, {...});
    resized = true;
  }
  const tempPath = filepath + '.tmp';
  if (ext === '.jpg' || ext === '.jpeg') { await pipeline.jpeg({...}).toFile(tempPath); }
  else if (ext === '.png') { await pipeline.png({...}).toFile(tempPath); }
  else if (ext === '.webp') { await pipeline.webp({...}).toFile(tempPath); }
  const optimizedSize = fs.statSync(tempPath).size;
  const savedBytes = originalSize - optimizedSize;
  if (optimizedSize < originalSize) {
    fs.renameSync(tempPath, filepath);
    if (ext !== '.webp') {
      const webpPath = filepath.replace(ext, '.webp');
      await sharp(filepath).webp({ quality: CONFIG.webpQuality }).toFile(webpPath);
    }
    imageCache[filepath] = { hash: getFileHash(filepath), optimized: true,
                             originalSize, optimizedSize, timestamp: ... };
    return { success: true, resized, originalSize, optimizedSize, savedBytes, ... };
  } else {
    fs.unlinkSync(tempPath);
    imageCache[filepath] = { hash, optimized: true, originalSize,
                             optimizedSize: originalSize, timestamp: ... };
    return { skipped: true, reason: ... };
  }
  \<close>
  An encoding that fails leaves the disk as it was. Renaming and unlinking a file that
  exists do not fail.
\<close>

definition tryBlock ::
  "env \<Rightarrow> string \<Rightarrow> path \<Rightarrow> string \<Rightarrow> string \<Rightarrow> nat \<Rightarrow> state
     \<Rightarrow> (string \<times> state) + (outcome \<times> state)" where
  "tryBlock env ts filepath ext h origSize st =
     (case files st filepath of
        None \<Rightarrow> Inl (''Input file is missing'', st)
      | Some img \<Rightarrow>
     (case metadata env img of
        Inl e \<Rightarrow> Inl (e, st)
      | Inr width \<Rightarrow>
     (let resize = resizeTo filepath width;
          resized = (resize \<noteq> None);
          tempPath = filepath @ ''.tmp''
      in case (case formatOf ext of
                 None \<Rightarrow> Inr (files st)
               | Some fmt \<Rightarrow> toFile (encode env fmt resize) filepath tempPath (files st)) of
        Inl e \<Rightarrow> Inl (e, st)
      | Inr fs1 \<Rightarrow>
     (case fs1 tempPath of
        None \<Rightarrow> Inl (''ENOENT'', st\<lparr>files := fs1\<rparr>)
      | Some temp \<Rightarrow>
     (let optSize = length temp;
          savedBytes = int origSize - int optSize
      in if optSize < origSize then
           (let fs2 = (fs1(filepath \<mapsto> temp))(tempPath := None)
            in case (if ext \<noteq> ''.webp''
                     then toFile (encode env Webp None) filepath
                            (replaceFirst ext ''.webp'' filepath) fs2
                     else Inr fs2) of
                 Inl e \<Rightarrow> Inl (e, st\<lparr>files := fs2\<rparr>)
               | Inr fs3 \<Rightarrow>
                   (case fs3 filepath of
                      None \<Rightarrow> Inl (''ENOENT'', st\<lparr>files := fs3\<rparr>)
                    | Some now \<Rightarrow>
                        Inr (Success resized origSize optSize savedBytes,
                             st\<lparr>files := fs3,
                                imageCache := (imageCache st)(filepath \<mapsto>
                                  \<lparr>hash = fileHash env now, optimized = True,
                                   originalSize = origSize, optimizedSize = optSize,
                                   timestamp = ts\<rparr>)\<rparr>)))
         else
           Inr (Skipped NoImprovement,
                st\<lparr>files := fs1(tempPath := None),
                   imageCache := (imageCache st)(filepath \<mapsto>
                     \<lparr>hash = h, optimized = True,
                      originalSize = origSize, optimizedSize = origSize,
                      timestamp = ts\<rparr>)\<rparr>))))))"

text \<open>
  \<^verbatim>\<open>
  async function optimizeImage(filepath) {
    const ext = path.extname(filepath).toLowerCase();
    if (!CONFIG.supportedFormats.includes(ext)) { return { skipped: true, reason: ... }; }
    const hash = getFileHash(filepath);
    if (isOptimized(filepath, hash)) { return { skipped: true, reason: ... }; }
    const originalSize = fs.statSync(filepath).size;
    try { ... } catch (error) { return { error: error.message }; }
  }
  \<close>
  The hash and the size are read before the \<^verbatim>\<open>try\<close> block, so a missing file is a
  crash there. \<open>ts\<close> is the reading of the clock.
\<close>

definition optimizeImage ::
  "env \<Rightarrow> string \<Rightarrow> path \<Rightarrow> state \<Rightarrow> (crash \<times> state) + (outcome \<times> state)" where
  "optimizeImage env ts filepath st =
     (let ext = lowerAscii (extname filepath)
      in if ext \<notin> set supportedFormats then Inr (Skipped UnsupportedFormat, st)
         else case files st filepath of
            None \<Rightarrow> Inl (ENOENT filepath, st)
          | Some img \<Rightarrow>
              (let h = fileHash env img
               in if isOptimized (imageCache st) filepath h
                  then Inr (Skipped AlreadyOptimized, st)
                  else (let origSize = length img
                        in case tryBlock env ts filepath ext h origSize st of
                             Inl (message, st') \<Rightarrow> Inr (Error message, st')
                           | Inr r \<Rightarrow> Inr r)))"

subsection \<open>A directory and the whole run\<close>

text \<open>A JavaScript number that is an integer, or NaN.\<close>

datatype jsnumber = Num int | NaN

text \<open>
  The statistics objects. \<^verbatim>\<open>processDirectory\<close> returns
  \<^verbatim>\<open>{ processed: 0, skipped: 0, errors: 0 }\<close> from its two early exits and
  \<^verbatim>\<open>{ processed, skipped, errors, totalSaved }\<close> after its loop, so the property
  \<^verbatim>\<open>totalSaved\<close> can be absent: \<open>None\<close>, which reads as \<^verbatim>\<open>undefined\<close>.
\<close>

record stats =
  processed :: nat
  skipped :: nat
  errors :: nat
  totalSaved :: "jsnumber option"

text \<open>\<^verbatim>\<open>a + b\<close> on such values: \<^verbatim>\<open>undefined\<close> becomes NaN, and NaN is absorbing.\<close>

fun jsAdd :: "jsnumber option \<Rightarrow> jsnumber option \<Rightarrow> jsnumber" where
  "jsAdd (Some (Num a)) (Some (Num b)) = Num (a + b)"
| "jsAdd a b = NaN"

text \<open>
  The body of the loop of \<^verbatim>\<open>processDirectory\<close> after the call:
  \<^verbatim>\<open>
  if (result.success) { stats.processed++; stats.totalSaved += result.savedBytes; ... }
  else if (result.skipped) { stats.skipped++; ... }
  else if (result.error) { stats.errors++; ... }
  \<close>
  An empty error message is falsy, so the last test fails on it.
\<close>

definition countResult :: "outcome \<Rightarrow> stats \<Rightarrow> stats" where
  "countResult result s =
     (case result of
        Success resized origSize optSize savedBytes \<Rightarrow>
          s\<lparr>processed := processed s + 1,
            totalSaved := Some (jsAdd (totalSaved s) (Some (Num savedBytes)))\<rparr>
      | Skipped reason \<Rightarrow> s\<lparr>skipped := skipped s + 1\<rparr>
      | Error message \<Rightarrow> if message \<noteq> [] then s\<lparr>errors := errors s + 1\<rparr> else s)"

text \<open>
  The loop \<^verbatim>\<open>for (const file of imageFiles)\<close>. Beside the statistics it returns what
  it prints: one line per file, here the path with the outcome. A crash of one call ends
  the loop.
\<close>

fun processFiles ::
  "env \<Rightarrow> string \<Rightarrow> path \<Rightarrow> string list \<Rightarrow> stats \<Rightarrow> state
     \<Rightarrow> (crash \<times> state) + (stats \<times> (path \<times> outcome) list \<times> state)" where
  "processFiles env ts dirPath [] s st = Inr (s, [], st)"
| "processFiles env ts dirPath (file # rest) s st =
     (case optimizeImage env ts (joinPath dirPath file) st of
        Inl c \<Rightarrow> Inl c
      | Inr (result, st1) \<Rightarrow>
          (case processFiles env ts dirPath rest (countResult result s) st1 of
             Inl c \<Rightarrow> Inl c
           | Inr (s2, lines, st2) \<Rightarrow>
               Inr (s2, (joinPath dirPath file, result) # lines, st2)))"

text \<open>
  \<^verbatim>\<open>
  async function processDirectory(dirPath) {
    if (!fs.existsSync(dirPath)) { ...; return { processed: 0, skipped: 0, errors: 0 }; }
    const files = fs.readdirSync(dirPath);
    const imageFiles = files.filter(file => {
      const ext = path.extname(file).toLowerCase();
      return CONFIG.supportedFormats.includes(ext);
    });
    if (imageFiles.length === 0) { ...; return { processed: 0, skipped: 0, errors: 0 }; }
    let stats = { processed: 0, skipped: 0, errors: 0, totalSaved: 0 };
    for (const file of imageFiles) { ... }
    return stats;
  }
  \<close>
\<close>

definition processDirectory ::
  "env \<Rightarrow> string \<Rightarrow> path \<Rightarrow> state
     \<Rightarrow> (crash \<times> state) + (stats \<times> (path \<times> outcome) list \<times> state)" where
  "processDirectory env ts dirPath st =
     (case readdir env dirPath of
        None \<Rightarrow> Inr (\<lparr>processed = 0, skipped = 0, errors = 0, totalSaved = None\<rparr>, [], st)
      | Some listing \<Rightarrow>
          (let imageFiles =
                 filter (\<lambda>file. lowerAscii (extname file) \<in> set supportedFormats) listing
           in if length imageFiles = 0
              then Inr (\<lparr>processed = 0, skipped = 0, errors = 0, totalSaved = None\<rparr>, [], st)
              else processFiles env ts dirPath imageFiles
                     \<lparr>processed = 0, skipped = 0, errors = 0, totalSaved = Some (Num 0)\<rparr> st))"

text \<open>
  The loop of \<^verbatim>\<open>main\<close> over the configured directories:
  \<^verbatim>\<open>
  const stats = await processDirectory(dirPath);
  totalStats.processed += stats.processed;
  totalStats.skipped += stats.skipped;
  totalStats.errors += stats.errors;
  totalStats.totalSaved += stats.totalSaved;
  \<close>
\<close>

definition addStats :: "stats \<Rightarrow> stats \<Rightarrow> stats" where
  "addStats acc s =
     \<lparr>processed = processed acc + processed s,
      skipped = skipped acc + skipped s,
      errors = errors acc + errors s,
      totalSaved = Some (jsAdd (totalSaved acc) (totalSaved s))\<rparr>"

fun processDirs ::
  "env \<Rightarrow> string \<Rightarrow> path list \<Rightarrow> stats \<Rightarrow> state
     \<Rightarrow> (crash \<times> state) + (stats \<times> (path \<times> outcome) list \<times> state)" where
  "processDirs env ts [] acc st = Inr (acc, [], st)"
| "processDirs env ts (dirPath # dirs) acc st =
     (case processDirectory env ts dirPath st of
        Inl c \<Rightarrow> Inl c
      | Inr (s, lines1, st1) \<Rightarrow>
          (case processDirs env ts dirs (addStats acc s) st1 of
             Inl c \<Rightarrow> Inl c
           | Inr (acc2, lines2, st2) \<Rightarrow> Inr (acc2, lines1 @ lines2, st2)))"

text \<open>
  \<^verbatim>\<open>loadCache\<close>: the process starts with \<^verbatim>\<open>imageCache = {}\<close>; a cache file that
  exists and parses replaces it, any failure leaves it empty.
  \<^verbatim>\<open>saveCache\<close>: the cache is written to the file; a failure of the write is caught
  and logged.
\<close>

definition loadCache :: "state \<Rightarrow> state" where
  "loadCache st =
     st\<lparr>imageCache := (case cacheFile st of None \<Rightarrow> Map.empty | Some c \<Rightarrow> c)\<rparr>"

definition saveCache :: "env \<Rightarrow> state \<Rightarrow> state" where
  "saveCache env st =
     (if cacheWritable env then st\<lparr>cacheFile := Some (imageCache st)\<rparr> else st)"

text \<open>\<^verbatim>\<open>main\<close>: load the cache, process the directories, save the cache. The result is
  the summary that is printed, with the lines printed per file, and the state left
  behind. After a crash the cache is not saved.\<close>

definition main ::
  "env \<Rightarrow> string \<Rightarrow> path \<Rightarrow> state
     \<Rightarrow> (crash \<times> state) + (stats \<times> (path \<times> outcome) list \<times> state)" where
  "main env ts root st =
     (case processDirs env ts (imageDirs root)
             \<lparr>processed = 0, skipped = 0, errors = 0, totalSaved = Some (Num 0)\<rparr>
             (loadCache st) of
        Inl c \<Rightarrow> Inl c
      | Inr (acc, lines, st1) \<Rightarrow> Inr (acc, lines, saveCache env st1))"

subsection \<open>Environments and states for the examples\<close>

text \<open>
  A digest that tells the example files apart, and an image library whose encoders drop
  the first byte of their input (so every non-empty file shrinks), except that the PNG
  encoder appends a byte. \<open>sampleEnv\<close> takes the directory listing; \<open>brokenWebpEnv\<close>
  is the same with a WebP encoder that raises an error.
\<close>

definition sampleHash :: "bytes \<Rightarrow> string" where
  "sampleHash b = map char_of b"

definition sampleEncode :: "format \<Rightarrow> nat option \<Rightarrow> bytes \<Rightarrow> string + bytes" where
  "sampleEncode fmt resize b =
     (case fmt of Jpeg \<Rightarrow> Inr (tl b) | Png \<Rightarrow> Inr (b @ [0]) | Webp \<Rightarrow> Inr (tl b))"

definition sampleMetadata :: "bytes \<Rightarrow> string + nat option" where
  "sampleMetadata b = (if b = [] then Inl ''Input file contains unsupported image format''
                       else Inr (Some 800))"

definition sampleEnv :: "(path \<Rightarrow> string list option) \<Rightarrow> env" where
  "sampleEnv rd =
     \<lparr>fileHash = sampleHash, metadata = sampleMetadata, encode = sampleEncode,
      readdir = rd, cacheWritable = True\<rparr>"

definition brokenWebpEnv :: "(path \<Rightarrow> string list option) \<Rightarrow> env" where
  "brokenWebpEnv rd =
     (sampleEnv rd)\<lparr>encode := (\<lambda>fmt resize b.
        case fmt of Webp \<Rightarrow> Inl ''webp: unable to encode'' | _ \<Rightarrow> sampleEncode fmt resize b)\<rparr>"

definition noListing :: "path \<Rightarrow> string list option" where
  "noListing d = None"

definition diskOf :: "(path \<times> bytes) list \<Rightarrow> state" where
  "diskOf fs = \<lparr>files = map_of fs, imageCache = Map.empty, cacheFile = None\<rparr>"

text \<open>The sample environment with a cache file that cannot be written.\<close>

definition readOnlyCacheEnv :: "(path \<Rightarrow> string list option) \<Rightarrow> env" where
  "readOnlyCacheEnv rd = (sampleEnv rd)\<lparr>cacheWritable := False\<rparr>"



subsection \<open>Notions for the properties of a run\<close>

text \<open>The path \<^verbatim>\<open>filepath.replace(ext, '.webp')\<close> at which \<^verbatim>\<open>optimizeImage\<close> writes the
  WebP sibling of a file.\<close>

definition siblingPath :: "path \<Rightarrow> path" where
  "siblingPath filepath = replaceFirst (lowerAscii (extname filepath)) ''.webp'' filepath"

text \<open>
  \<open>overwritten f lines\<close>: among the printed lines of a run there is a success of another
  file whose WebP sibling path is \<open>f\<close>. On a success, and only then, the sibling has been
  written.
\<close>

fun isSuccess :: "outcome \<Rightarrow> bool" where
  "isSuccess (Success resized origSize optSize savedBytes) = True"
| "isSuccess (Skipped reason) = False"
| "isSuccess (Error message) = False"

definition overwritten :: "path \<Rightarrow> (path \<times> outcome) list \<Rightarrow> bool" where
  "overwritten f lines =
     list_ex (\<lambda>l. fst l \<noteq> f \<and> siblingPath (fst l) = f \<and> isSuccess (snd l)) lines"

text \<open>
  \<open>steps env ts st lines st'\<close>: calling \<^verbatim>\<open>optimizeImage\<close> on the paths of \<open>lines\<close>, one
  after the other from the state \<open>st\<close>, gives the outcomes of \<open>lines\<close> and ends in \<open>st'\<close>.
  The lines a run prints are such a sequence.
\<close>

fun steps :: "env \<Rightarrow> string \<Rightarrow> state \<Rightarrow> (path \<times> outcome) list \<Rightarrow> state \<Rightarrow> bool" where
  "steps env ts st [] st' = (st' = st)"
| "steps env ts st (l # lines) st' =
     (case optimizeImage env ts (fst l) st of
        Inl c \<Rightarrow> False
      | Inr (out, st1) \<Rightarrow> out = snd l \<and> steps env ts st1 lines st')"

text \<open>\<open>cacheHit hf f st\<close>: the file \<open>f\<close> has a supported extension, exists, and the cache
  holds an entry for it that is marked optimized and stores the hash of its content.\<close>

definition cacheHit :: "(bytes \<Rightarrow> string) \<Rightarrow> path \<Rightarrow> state \<Rightarrow> bool" where
  "cacheHit hf f st =
     (lowerAscii (extname f) \<in> set supportedFormats \<and>
      (case files st f of
         None \<Rightarrow> False
       | Some img \<Rightarrow> isOptimized (imageCache st) f (hf img)))"

text \<open>The bytes saved that the printed lines of a run report: \<^verbatim>\<open>savedBytes\<close> of every
  success.\<close>

fun savedBytesOf :: "outcome \<Rightarrow> int" where
  "savedBytesOf (Success resized origSize optSize savedBytes) = savedBytes"
| "savedBytesOf (Skipped reason) = 0"
| "savedBytesOf (Error message) = 0"

definition sumSaved :: "(path \<times> outcome) list \<Rightarrow> int" where
  "sumSaved lines = sum_list (map (\<lambda>l. savedBytesOf (snd l)) lines)"

text \<open>A configured directory that exists and lists at least one supported image.\<close>

definition hasImages :: "env \<Rightarrow> path \<Rightarrow> bool" where
  "hasImages env dirPath =
     (case readdir env dirPath of
        None \<Rightarrow> False
      | Some listing \<Rightarrow>
          filter (\<lambda>file. lowerAscii (extname file) \<in> set supportedFormats) listing \<noteq> [])"

text \<open>Two runs in succession with nothing in between: the lines printed by the first
  run, and the summary and the lines of the second. The second run may see another
  listing and another clock.\<close>

definition runTwice ::
  "env \<Rightarrow> env \<Rightarrow> string \<Rightarrow> string \<Rightarrow> path \<Rightarrow> state
     \<Rightarrow> ((path \<times> outcome) list \<times> stats \<times> (path \<times> outcome) list) option" where
  "runTwice env1 env2 ts1 ts2 root st =
     (case main env1 ts1 root st of
        Inl c \<Rightarrow> None
      | Inr (total1, lines1, st1) \<Rightarrow>
          (case main env2 ts2 root st1 of
             Inl c \<Rightarrow> None
           | Inr (total2, lines2, st2) \<Rightarrow> Some (lines1, total2, lines2)))"

text \<open>Listings for the examples: only the directory \<^verbatim>\<open>/site/public/images\<close> exists and
  lists the given names.\<close>

definition imagesOnly :: "string list \<Rightarrow> path \<Rightarrow> string list option" where
  "imagesOnly names d = (if d = ''/site/public/images'' then Some names else None)"

text \<open>The same with a second listing for the directory \<^verbatim>\<open>/site/public/images/news\<close>.\<close>

definition twoDirs :: "string list \<Rightarrow> string list \<Rightarrow> path \<Rightarrow> string list option" where
  "twoDirs names newsNames d =
     (if d = ''/site/public/images'' then Some names
      else if d = ''/site/public/images/news'' then Some newsNames
      else None)"

section \<open>Properties of the slug derivation\<close>

lemma slugChar_not_hyphen: "isSlugChar c \<Longrightarrow> c \<noteq> hyphen"
  by (auto simp: isSlugChar_def hyphen_def)

lemma collapseRuns_chars: "c \<in> set (collapseRuns b s) \<Longrightarrow> isSlugChar c \<or> c = hyphen"
  by (induction b s rule: collapseRuns.induct) (auto split: if_splits)

lemma collapseRuns_inRun_head: "collapseRuns True s = x # r \<Longrightarrow> x \<noteq> hyphen"
  by (induction s) (auto split: if_splits dest: slugChar_not_hyphen)

lemma collapseRuns_noDouble: "noDoubleHyphen (collapseRuns b s)"
proof (induction b s rule: collapseRuns.induct)
  case (1 inRun)
  show ?case by simp
next
  case (2 inRun c cs)
  show ?case
  proof (cases "isSlugChar c")
    case True
    with 2 show ?thesis
      by (cases "collapseRuns False cs") (auto dest: slugChar_not_hyphen)
  next
    case False
    with 2 show ?thesis
      by (cases "collapseRuns True cs") (auto dest: collapseRuns_inRun_head)
  qed
qed

lemma noDouble_tl: "noDoubleHyphen (a # r) \<Longrightarrow> noDoubleHyphen r"
  by (cases r) auto

lemma noDouble_last: "noDoubleHyphen s \<Longrightarrow> s \<noteq> [] \<Longrightarrow> last s = hyphen \<Longrightarrow> \<not> suffix [hyphen] (butlast s)"
proof (induction s rule: noDoubleHyphen.induct)
  case (1 a b r)
  show ?case
  proof (cases r)
    case Nil
    with 1 show ?thesis by (auto simp: suffix_def)
  next
    case (Cons c r')
    with 1 have "\<not> suffix [hyphen] (butlast (b # r))" by auto
    with Cons show ?thesis by (auto simp: suffix_Cons)
  qed
qed (auto simp: suffix_def)

lemma stripEdges_no_leading: "noDoubleHyphen s \<Longrightarrow> \<not> prefix [hyphen] (stripEdges s)"
  apply (cases s; simp add: stripEdges_def Let_def)
  subgoal for a r
    apply (cases r; simp)
    apply (auto simp: butlast_def split: if_splits)
    done
  done

lemma not_suffix_hyphen: "s = [] \<or> last s \<noteq> hyphen \<Longrightarrow> \<not> suffix [hyphen] s"
  by (auto simp: suffix_def)

lemma stripEdges_no_trailing:
  assumes "noDoubleHyphen s"
  shows "\<not> suffix [hyphen] (stripEdges s)"
proof -
  define s1 where "s1 = (case s of [] \<Rightarrow> [] | c # cs \<Rightarrow> if c = hyphen then cs else s)"
  have nd: "noDoubleHyphen s1"
    using assms by (auto simp: s1_def split: list.splits dest: noDouble_tl)
  have eq: "stripEdges s = (if s1 \<noteq> [] \<and> last s1 = hyphen then butlast s1 else s1)"
    by (simp add: stripEdges_def s1_def)
  show ?thesis
  proof (cases "s1 \<noteq> [] \<and> last s1 = hyphen")
    case True
    then show ?thesis using eq nd by (simp add: noDouble_last)
  next
    case False
    then have "s1 = [] \<or> last s1 \<noteq> hyphen" by blast
    then have "\<not> suffix [hyphen] s1" by (rule not_suffix_hyphen)
    moreover from False eq have "stripEdges s = s1" by metis
    ultimately show ?thesis by simp
  qed
qed

lemma stripEdges_subset: "set (stripEdges s) \<subseteq> set s"
  by (auto simp: stripEdges_def Let_def split: list.splits if_splits dest: in_set_butlastD)

text \<open>
  Claim C6. \<open>slugify\<close> is a function of its argument alone (it reads no state, so equal
  inputs give equal outputs). For every input string the output holds only lower-case
  ASCII letters, digits and hyphens, and neither begins nor ends with a hyphen; the two
  example titles of the specification give \<^verbatim>\<open>vereinsfeier-am-sonntag\<close> and
  \<^verbatim>\<open>aeoeue-gross\<close>. The second title is written with the code units 196, 246, 252
  (the three umlauts, the first a capital) and 223 (sharp s).
\<close>

theorem slugify_wellformed:
  "(\<forall>c \<in> set (slugify text). isSlugChar c \<or> c = hyphen)
   \<and> \<not> prefix [hyphen] (slugify text)
   \<and> \<not> suffix [hyphen] (slugify text)
   \<and> slugify (of_ascii ''Vereinsfeier am Sonntag!'') = of_ascii ''vereinsfeier-am-sonntag''
   \<and> slugify ([196, 246, 252] @ of_ascii '' & Gro'' @ [223] @ of_ascii ''!'') = of_ascii ''aeoeue-gross''"
proof -
  have chars: "\<forall>c \<in> set (slugify text). isSlugChar c \<or> c = hyphen"
    using stripEdges_subset collapseRuns_chars unfolding slugify_def by blast
  have lead: "\<not> prefix [hyphen] (slugify text)"
    unfolding slugify_def by (rule stripEdges_no_leading) (rule collapseRuns_noDouble)
  have trail: "\<not> suffix [hyphen] (slugify text)"
    unfolding slugify_def by (rule stripEdges_no_trailing) (rule collapseRuns_noDouble)
  have ex1: "slugify (of_ascii ''Vereinsfeier am Sonntag!'') = of_ascii ''vereinsfeier-am-sonntag''"
    by (simp add: slugify_def of_ascii_def toLowerCase_def toLowerCaseUnit_def
        replaceUmlauts_def umlautMap_def isSlugChar_def hyphen_def stripEdges_def)
  have ex2: "slugify ([196, 246, 252] @ of_ascii '' & Gro'' @ [223] @ of_ascii ''!'') = of_ascii ''aeoeue-gross''"
    by (simp add: slugify_def of_ascii_def toLowerCase_def toLowerCaseUnit_def
        replaceUmlauts_def umlautMap_def isSlugChar_def hyphen_def stripEdges_def)
  from chars lead trail ex1 ex2 show ?thesis by blast
qed

text \<open>The theorem at a title with hyphens and blanks at both ends.\<close>

theorem slugify_wellformed_witness:
  "slugify (of_ascii ''--Hallo  Welt--'') = of_ascii ''hallo-welt''
   \<and> list_all (\<lambda>c. isSlugChar c \<or> c = hyphen) (slugify (of_ascii ''--Hallo  Welt--''))
   \<and> \<not> prefix [hyphen] (slugify (of_ascii ''--Hallo  Welt--''))
   \<and> \<not> suffix [hyphen] (slugify (of_ascii ''--Hallo  Welt--''))"
proof -
  have v: "slugify (of_ascii ''--Hallo  Welt--'') = of_ascii ''hallo-welt''"
    by (simp add: slugify_def of_ascii_def toLowerCase_def toLowerCaseUnit_def
        replaceUmlauts_def umlautMap_def isSlugChar_def hyphen_def stripEdges_def)
  show ?thesis
    using slugify_wellformed [of "of_ascii ''--Hallo  Welt--''"] v
    by (simp add: list_all_iff)
qed

section \<open>Properties of the article helpers\<close>

text \<open>
  Claim C10. Called with exactly \<^verbatim>\<open>Alle\<close>, \<open>getNewsByCategory\<close> returns the whole list
  of published articles, whatever their categories; called with any other argument it
  returns exactly the articles whose category equals the argument, in their order.
\<close>

theorem getNewsByCategory_spec:
  "getNewsByCategory articles ''Alle'' = articles
   \<and> (cat \<noteq> ''Alle'' \<longrightarrow>
        getNewsByCategory articles cat = filter (\<lambda>a. category a = cat) articles)"
  by (simp add: getNewsByCategory_def)

text \<open>Three articles, none of category \<^verbatim>\<open>Alle\<close>: the argument \<^verbatim>\<open>Alle\<close> keeps all three,
  the argument \<^verbatim>\<open>Jugend\<close> keeps the second.\<close>

theorem getNewsByCategory_spec_witness:
  "getNewsByCategory
     [sampleArticle ''a'' ''Verein'', sampleArticle ''b'' ''Jugend'', sampleArticle ''c'' ''Verein'']
     ''Alle''
   = [sampleArticle ''a'' ''Verein'', sampleArticle ''b'' ''Jugend'', sampleArticle ''c'' ''Verein'']
   \<and> ''Jugend'' \<noteq> ''Alle''
   \<and> getNewsByCategory
     [sampleArticle ''a'' ''Verein'', sampleArticle ''b'' ''Jugend'', sampleArticle ''c'' ''Verein'']
     ''Jugend''
   = [sampleArticle ''b'' ''Jugend'']"
  using getNewsByCategory_spec
    [of "[sampleArticle ''a'' ''Verein'', sampleArticle ''b'' ''Jugend'', sampleArticle ''c'' ''Verein'']"
        "''Jugend''"]
  by (simp add: sampleArticle_def)

text \<open>
  The copy of \<open>formatDate\<close> with the fallback never lets an exception out, and an empty
  or unparsable date string gives the placeholder \<^verbatim>\<open>Kein Datum\<close>, whatever the
  runtime's parser and renderer do.
\<close>

theorem formatDate_fallback:
  "(\<exists>r. formatDate parse render s = Inr r)
   \<and> (s = [] \<or> parse s = None \<longrightarrow> formatDate parse render s = Inr ''Kein Datum'')"
  by (auto simp: formatDate_def split: option.splits sum.splits)

theorem formatDate_fallback_witness:
  "(\<exists>r. formatDate sampleParse sampleRender ''morgen'' = Inr r)
   \<and> sampleParse ''morgen'' = None
   \<and> formatDate sampleParse sampleRender ''morgen'' = Inr ''Kein Datum''
   \<and> formatDate sampleParse sampleRender ''2024-05-01'' = Inr ''01. Mai 2024''"
  using formatDate_fallback [of sampleParse sampleRender "''morgen''"]
  by (simp add: sampleParse_def sampleRender_def formatDate_def)

lemma formatDate_plain_unparsable:
  "parse s = None \<Longrightarrow> formatDate_plain parse render s = Inr ''Invalid Date''"
  by (simp add: formatDate_plain_def)

text \<open>
  Claim C9, at the two copies of \<open>formatDate\<close> without the fallback: for the empty string
  and for an unparsable one they return \<^verbatim>\<open>Invalid Date\<close>, where the copy with the
  fallback returns \<^verbatim>\<open>Kein Datum\<close>.
\<close>

theorem formatDate_plain_invalid_rendering:
  "formatDate_plain sampleParse sampleRender [] = Inr ''Invalid Date''
   \<and> formatDate_plain sampleParse sampleRender ''morgen'' = Inr ''Invalid Date''
   \<and> formatDate sampleParse sampleRender [] = Inr ''Kein Datum''
   \<and> formatDate sampleParse sampleRender ''morgen'' = Inr ''Kein Datum''"
  by (simp add: formatDate_plain_unparsable sampleParse_def formatDate_def)

section \<open>Properties of the image download\<close>






section \<open>Properties of the optimizer: one image\<close>

lemma formatOf_supported: "formatOf ext = Some fmt \<Longrightarrow> ext \<in> set supportedFormats"
  by (auto simp: formatOf_def supportedFormats_def split: if_splits)

lemma formatOf_webp: "formatOf ext = Some fmt \<Longrightarrow> (ext = ''.webp'') = (fmt = Webp)"
  by (auto simp: formatOf_def split: if_splits)

lemma optimizeImage_miss:
  assumes "files st filepath = Some img"
      and "formatOf (lowerAscii (extname filepath)) = Some fmt"
      and "\<not> isOptimized (imageCache st) filepath (fileHash env img)"
  shows "optimizeImage env ts filepath st =
           (case tryBlock env ts filepath (lowerAscii (extname filepath)) (fileHash env img) (length img) st of
              Inl (message, st') \<Rightarrow> Inr (Error message, st')
            | Inr r \<Rightarrow> Inr r)"
  using assms by (simp add: optimizeImage_def Let_def formatOf_supported)

lemma tryBlock_encoded:
  assumes "files st filepath = Some img"
      and "formatOf ext = Some fmt"
      and "metadata env img = Inr width"
      and "encode env fmt (resizeTo filepath width) img = Inr temp"
  shows "tryBlock env ts filepath ext h (length img) st =
     (if length temp < length img then
           (let fs2 = (files st)(filepath \<mapsto> temp, filepath @ ''.tmp'' := None)
            in case (if ext \<noteq> ''.webp''
                     then toFile (encode env Webp None) filepath
                            (replaceFirst ext ''.webp'' filepath) fs2
                     else Inr fs2) of
                 Inl e \<Rightarrow> Inl (e, st\<lparr>files := fs2\<rparr>)
               | Inr fs3 \<Rightarrow>
                   (case fs3 filepath of
                      None \<Rightarrow> Inl (''ENOENT'', st\<lparr>files := fs3\<rparr>)
                    | Some now \<Rightarrow>
                        Inr (Success (resizeTo filepath width \<noteq> None) (length img) (length temp) (int (length img) - int (length temp)),
                             st\<lparr>files := fs3,
                                imageCache := (imageCache st)(filepath \<mapsto>
                                  \<lparr>hash = fileHash env now, optimized = True,
                                   originalSize = length img, optimizedSize = length temp,
                                   timestamp = ts\<rparr>)\<rparr>)))
         else
           Inr (Skipped NoImprovement,
                st\<lparr>files := (files st)(filepath @ ''.tmp'' := None),
                   imageCache := (imageCache st)(filepath \<mapsto>
                     \<lparr>hash = h, optimized = True,
                      originalSize = length img, optimizedSize = length img,
                      timestamp = ts\<rparr>)\<rparr>))"
  using assms by (simp add: tryBlock_def toFile_def Let_def fun_upd_twist del: not_None_eq)

text \<open>
  Claim C4. For a candidate file (supported extension, no valid cache entry, metadata
  read and re-encoding without error) whose re-encoded temporary output is not strictly
  smaller than the original, the result is skipped for lack of improvement; the
  temporary file is gone, every other file, the original among them, is as before, and
  the cache entry written holds the hash of the original, the optimized flag, and the
  original size in both size fields.
\<close>

theorem optimizeImage_no_improvement:
  assumes "files st filepath = Some img"
      and "formatOf (lowerAscii (extname filepath)) = Some fmt"
      and "\<not> isOptimized (imageCache st) filepath (fileHash env img)"
      and "metadata env img = Inr width"
      and "encode env fmt (resizeTo filepath width) img = Inr temp"
      and "\<not> length temp < length img"
  shows "\<exists>st'. optimizeImage env ts filepath st = Inr (Skipped NoImprovement, st')
          \<and> files st' = (files st)(filepath @ ''.tmp'' := None)
          \<and> files st' (filepath @ ''.tmp'') = None
          \<and> files st' filepath = Some img
          \<and> imageCache st' = (imageCache st)(filepath \<mapsto>
                \<lparr>hash = fileHash env img, optimized = True, originalSize = length img,
                 optimizedSize = length img, timestamp = ts\<rparr>)
          \<and> cacheFile st' = cacheFile st"
  using assms
  by (simp add: optimizeImage_miss tryBlock_encoded)

text \<open>
  The successful path of \<^verbatim>\<open>optimizeImage\<close>: when the re-encoded output is strictly
  smaller, the original is replaced by it and the temporary file is gone. A WebP source
  gets no sibling. For another source, if the sibling path computed by
  \<^verbatim>\<open>filepath.replace(ext, '.webp')\<close> differs from the path of the source and the WebP
  encoding succeeds, the sibling is written at that path. In both cases the cache entry
  holds the hash of the file as it is now, with \<open>optimizedSize < originalSize\<close>.
\<close>

theorem optimizeImage_shrinks:
  assumes "files st filepath = Some img"
      and "formatOf (lowerAscii (extname filepath)) = Some fmt"
      and "\<not> isOptimized (imageCache st) filepath (fileHash env img)"
      and "metadata env img = Inr width"
      and "encode env fmt (resizeTo filepath width) img = Inr temp"
      and "length temp < length img"
  shows "(fmt = Webp \<longrightarrow>
            optimizeImage env ts filepath st =
              Inr (Success (resizeTo filepath width \<noteq> None) (length img) (length temp)
                     (int (length img) - int (length temp)),
                   st\<lparr>files := (files st)(filepath \<mapsto> temp, filepath @ ''.tmp'' := None),
                      imageCache := (imageCache st)(filepath \<mapsto>
                        \<lparr>hash = fileHash env temp, optimized = True,
                         originalSize = length img, optimizedSize = length temp,
                         timestamp = ts\<rparr>)\<rparr>))
       \<and> (fmt \<noteq> Webp
            \<and> replaceFirst (lowerAscii (extname filepath)) ''.webp'' filepath \<noteq> filepath
            \<and> encode env Webp None temp = Inr w \<longrightarrow>
            optimizeImage env ts filepath st =
              Inr (Success (resizeTo filepath width \<noteq> None) (length img) (length temp)
                     (int (length img) - int (length temp)),
                   st\<lparr>files := (files st)(filepath \<mapsto> temp, filepath @ ''.tmp'' := None,
                          replaceFirst (lowerAscii (extname filepath)) ''.webp'' filepath \<mapsto> w),
                      imageCache := (imageCache st)(filepath \<mapsto>
                        \<lparr>hash = fileHash env temp, optimized = True,
                         originalSize = length img, optimizedSize = length temp,
                         timestamp = ts\<rparr>)\<rparr>))"
  using assms formatOf_webp [OF assms(2)]
  by (auto simp add: optimizeImage_miss tryBlock_encoded toFile_def Let_def simp del: not_None_eq)

text \<open>
  Claim C2, as amended. An error can be raised by the metadata read, by the re-encoding
  to the temporary file, or by the writing of the WebP sibling after the original has
  been replaced: \<^verbatim>\<open>sharp(filepath).webp(...).toFile(webpPath)\<close> fails when the encoder
  fails and when \<^verbatim>\<open>webpPath\<close> is the path of the source. In each case the call returns
  the error's message as its outcome and the cache is not mutated. The loop over the
  directory adds one to \<^verbatim>\<open>errors\<close>, unless the message is empty, prints the line for
  the file and goes on with the remaining files. After an error of the metadata read or
  of the re-encoding the state is the one before the call, so no byte on disk has
  changed; after an error of the sibling the file already holds the smaller re-encoded
  bytes.
\<close>

theorem optimizeImage_error_handling:
  assumes "files st (joinPath dirPath name) = Some img"
      and "formatOf (lowerAscii (extname (joinPath dirPath name))) = Some fmt"
      and "\<not> isOptimized (imageCache st) (joinPath dirPath name) (fileHash env img)"
      and "metadata env img = Inl e
           \<or> metadata env img = Inr width
               \<and> encode env fmt (resizeTo (joinPath dirPath name) width) img = Inl e
           \<or> metadata env img = Inr width
               \<and> encode env fmt (resizeTo (joinPath dirPath name) width) img = Inr temp
               \<and> length temp < length img \<and> fmt \<noteq> Webp
               \<and> toFile (encode env Webp None) (joinPath dirPath name)
                    (siblingPath (joinPath dirPath name))
                    ((files st)(joinPath dirPath name \<mapsto> temp,
                                joinPath dirPath name @ ''.tmp'' := None)) = Inl e"
  shows "\<exists>st'.
           optimizeImage env ts (joinPath dirPath name) st = Inr (Error e, st')
         \<and> imageCache st' = imageCache st
         \<and> cacheFile st' = cacheFile st
         \<and> (metadata env img = Inl e
              \<or> metadata env img = Inr width
                  \<and> encode env fmt (resizeTo (joinPath dirPath name) width) img = Inl e
              \<longrightarrow> st' = st)
         \<and> (metadata env img = Inr width
              \<and> encode env fmt (resizeTo (joinPath dirPath name) width) img = Inr temp
              \<longrightarrow> files st' = (files st)(joinPath dirPath name \<mapsto> temp,
                                          joinPath dirPath name @ ''.tmp'' := None))
         \<and> processFiles env ts dirPath (name # rest) s st =
             (case processFiles env ts dirPath rest
                     (if e = [] then s else s\<lparr>errors := errors s + 1\<rparr>) st' of
                Inl c \<Rightarrow> Inl c
              | Inr (s2, lines, st2) \<Rightarrow>
                  Inr (s2, (joinPath dirPath name, Error e) # lines, st2))"
proof -
  let ?fp = "joinPath dirPath name"
  let ?ext = "lowerAscii (extname ?fp)"
  note miss = optimizeImage_miss [OF assms(1-3)]
  have count: "countResult (Error e) s = (if e = [] then s else s\<lparr>errors := errors s + 1\<rparr>)"
    by (simp add: countResult_def)
  consider (meta) "metadata env img = Inl e"
    | (enc) "metadata env img = Inr width" "encode env fmt (resizeTo ?fp width) img = Inl e"
    | (sib) "metadata env img = Inr width" "encode env fmt (resizeTo ?fp width) img = Inr temp"
        "length temp < length img" "fmt \<noteq> Webp"
        "toFile (encode env Webp None) ?fp (siblingPath ?fp)
           ((files st)(?fp \<mapsto> temp, ?fp @ ''.tmp'' := None)) = Inl e"
    using assms(4) by blast
  then show ?thesis
  proof cases
    case meta
    then have "optimizeImage env ts ?fp st = Inr (Error e, st)"
      using assms(1) by (simp add: miss tryBlock_def)
    with meta show ?thesis by (simp add: count)
  next
    case enc
    then have "optimizeImage env ts ?fp st = Inr (Error e, st)"
      using assms(1,2) by (simp add: miss tryBlock_def toFile_def)
    with enc show ?thesis by (simp add: count)
  next
    case sib
    have w: "?ext \<noteq> ''.webp''"
      using formatOf_webp [OF assms(2)] sib(4) by simp
    have "optimizeImage env ts ?fp st =
            Inr (Error e, st\<lparr>files := (files st)(?fp \<mapsto> temp, ?fp @ ''.tmp'' := None)\<rparr>)"
      using sib(3) sib(5) [unfolded siblingPath_def] w
      by (simp add: miss tryBlock_encoded [OF assms(1,2) sib(1,2)] Let_def)
    with sib show ?thesis by (simp add: count)
  qed
qed

lemma ext_a_jpg: "lowerAscii (extname ''/site/public/images/a.jpg'') = ''.jpg''"
  by (simp add: extname_def basename_def lowerAscii_def lowerAsciiChar_def Let_def)

lemma ext_a_png: "lowerAscii (extname ''/site/public/images/a.png'') = ''.png''"
  by (simp add: extname_def basename_def lowerAscii_def lowerAsciiChar_def Let_def)

lemma ext_IMG_JPG: "lowerAscii (extname ''/site/public/images/IMG.JPG'') = ''.jpg''"
  by (simp add: extname_def basename_def lowerAscii_def lowerAsciiChar_def Let_def)

text \<open>
  The theorem at a PNG that the sample encoder makes one byte longer.
\<close>

theorem optimizeImage_no_improvement_witness:
  "\<exists>st'. optimizeImage (sampleEnv noListing) ''t'' ''/site/public/images/a.png''
            (diskOf [(''/site/public/images/a.png'', [1, 2, 3])])
          = Inr (Skipped NoImprovement, st')
      \<and> files st' ''/site/public/images/a.png.tmp'' = None
      \<and> files st' ''/site/public/images/a.png'' = Some [1, 2, 3]
      \<and> imageCache st' ''/site/public/images/a.png'' =
           Some \<lparr>hash = sampleHash [1, 2, 3], optimized = True, originalSize = 3,
                 optimizedSize = 3, timestamp = ''t''\<rparr>"
proof -
  let ?st = "diskOf [(''/site/public/images/a.png'', [1, 2, 3])]"
  let ?env = "sampleEnv noListing"
  have f: "files ?st ''/site/public/images/a.png'' = Some [1, 2, 3]"
    by (simp add: diskOf_def)
  have e: "formatOf (lowerAscii (extname ''/site/public/images/a.png'')) = Some Png"
    by (simp add: ext_a_png formatOf_def)
  have m: "\<not> isOptimized (imageCache ?st) ''/site/public/images/a.png'' (fileHash ?env [1, 2, 3])"
    by (simp add: diskOf_def isOptimized_def)
  have md: "metadata ?env [1, 2, 3] = Inr (Some 800)"
    by (simp add: sampleEnv_def sampleMetadata_def)
  have en: "encode ?env Png (resizeTo ''/site/public/images/a.png'' (Some 800)) [1, 2, 3] = Inr [1, 2, 3, 0]"
    by (simp add: sampleEnv_def sampleEncode_def)
  have ns: "\<not> length [1, 2, 3, 0::nat] < length [1, 2, 3::nat]" by simp
  from optimizeImage_no_improvement [OF f e m md en ns, of "''t''"]
  show ?thesis by (auto simp: sampleEnv_def)
qed

text \<open>
  The theorem at a JPEG with an upper-case extension and encoders that all work: the
  sibling path is the path of the source, the writing of the sibling is refused, and the
  loop counts one error.
\<close>

theorem optimizeImage_error_handling_witness:
  "metadata (sampleEnv noListing) [1, 2, 3] = Inr (Some 800)
   \<and> encode (sampleEnv noListing) Jpeg None [1, 2, 3] = Inr [2, 3]
   \<and> toFile (encode (sampleEnv noListing) Webp None) ''/site/public/images/IMG.JPG''
        (siblingPath ''/site/public/images/IMG.JPG'')
        [''/site/public/images/IMG.JPG'' \<mapsto> [2, 3]]
       = Inl ''Cannot use same file for input and output''
   \<and> (\<exists>st'.
        optimizeImage (sampleEnv noListing) ''t'' (joinPath ''/site/public/images'' ''IMG.JPG'')
            (diskOf [(''/site/public/images/IMG.JPG'', [1, 2, 3])])
          = Inr (Error ''Cannot use same file for input and output'', st')
      \<and> imageCache st' = Map.empty
      \<and> files st' ''/site/public/images/IMG.JPG'' = Some [2, 3]
      \<and> processFiles (sampleEnv noListing) ''t'' ''/site/public/images'' [''IMG.JPG'']
            \<lparr>processed = 0, skipped = 0, errors = 0, totalSaved = Some (Num 0)\<rparr>
            (diskOf [(''/site/public/images/IMG.JPG'', [1, 2, 3])])
          = Inr (\<lparr>processed = 0, skipped = 0, errors = 1, totalSaved = Some (Num 0)\<rparr>,
                 [(''/site/public/images/IMG.JPG'',
                   Error ''Cannot use same file for input and output'')], st'))"
proof -
  let ?p = "''/site/public/images/IMG.JPG''"
  let ?st = "diskOf [(?p, [1, 2, 3])]"
  let ?env = "sampleEnv noListing"
  let ?e = "''Cannot use same file for input and output''"
  have jp: "joinPath ''/site/public/images'' ''IMG.JPG'' = ?p"
    by (simp add: joinPath_def)
  have f: "files ?st (joinPath ''/site/public/images'' ''IMG.JPG'') = Some [1, 2, 3]"
    by (simp add: diskOf_def jp)
  have e: "formatOf (lowerAscii (extname (joinPath ''/site/public/images'' ''IMG.JPG''))) = Some Jpeg"
    by (simp add: jp ext_IMG_JPG formatOf_def)
  have m: "\<not> isOptimized (imageCache ?st) (joinPath ''/site/public/images'' ''IMG.JPG'') (fileHash ?env [1, 2, 3])"
    by (simp add: diskOf_def isOptimized_def)
  have md: "metadata ?env [1, 2, 3] = Inr (Some 800)"
    by (simp add: sampleEnv_def sampleMetadata_def)
  have rs: "resizeTo (joinPath ''/site/public/images'' ''IMG.JPG'') (Some 800) = None"
    by (simp add: resizeTo_def maxWidth_def newsMaxWidth_def)
  have en: "encode ?env Jpeg None [1, 2, 3] = Inr [2, 3]"
    by (simp add: sampleEnv_def sampleEncode_def)
  have sp: "siblingPath ?p = ?p"
    by (simp add: siblingPath_def ext_IMG_JPG)
  have tf: "toFile (encode ?env Webp None) ?p (siblingPath ?p) [?p \<mapsto> [2, 3]] = Inl ?e"
    by (simp add: sp toFile_def)
  have fs2: "(files ?st)(joinPath ''/site/public/images'' ''IMG.JPG'' \<mapsto> [2, 3],
                joinPath ''/site/public/images'' ''IMG.JPG'' @ ''.tmp'' := None) = [?p \<mapsto> [2, 3]]"
    by (auto simp: jp diskOf_def)
  have raised: "metadata ?env [1, 2, 3] = Inl ?e
     \<or> metadata ?env [1, 2, 3] = Inr (Some 800)
         \<and> encode ?env Jpeg (resizeTo (joinPath ''/site/public/images'' ''IMG.JPG'') (Some 800)) [1, 2, 3] = Inl ?e
     \<or> metadata ?env [1, 2, 3] = Inr (Some 800)
         \<and> encode ?env Jpeg (resizeTo (joinPath ''/site/public/images'' ''IMG.JPG'') (Some 800)) [1, 2, 3] = Inr [2, 3]
         \<and> length [2, 3::nat] < length [1, 2, 3::nat] \<and> Jpeg \<noteq> Webp
         \<and> toFile (encode ?env Webp None) (joinPath ''/site/public/images'' ''IMG.JPG'')
              (siblingPath (joinPath ''/site/public/images'' ''IMG.JPG''))
              ((files ?st)(joinPath ''/site/public/images'' ''IMG.JPG'' \<mapsto> [2, 3],
                joinPath ''/site/public/images'' ''IMG.JPG'' @ ''.tmp'' := None)) = Inl ?e"
    using md en rs tf unfolding fs2 by (simp add: jp)
  from optimizeImage_error_handling [OF f e m raised, of "''t''" "[]"
      "\<lparr>processed = 0, skipped = 0, errors = 0, totalSaved = Some (Num 0)\<rparr>"]
  obtain st' where
    r: "optimizeImage ?env ''t'' (joinPath ''/site/public/images'' ''IMG.JPG'') ?st = Inr (Error ?e, st')"
    and c: "imageCache st' = imageCache ?st"
    and fl: "files st' = (files ?st)(joinPath ''/site/public/images'' ''IMG.JPG'' \<mapsto> [2, 3],
                joinPath ''/site/public/images'' ''IMG.JPG'' @ ''.tmp'' := None)"
    and p: "processFiles ?env ''t'' ''/site/public/images'' [''IMG.JPG'']
            \<lparr>processed = 0, skipped = 0, errors = 0, totalSaved = Some (Num 0)\<rparr> ?st
        = (case processFiles ?env ''t'' ''/site/public/images'' []
                  (if ?e = [] then \<lparr>processed = 0, skipped = 0, errors = 0, totalSaved = Some (Num 0)\<rparr>
                   else \<lparr>processed = 0, skipped = 0, errors = 0, totalSaved = Some (Num 0)\<rparr>
                          \<lparr>errors := errors \<lparr>processed = 0, skipped = 0, errors = 0, totalSaved = Some (Num 0)\<rparr> + 1\<rparr>) st' of
             Inl c \<Rightarrow> Inl c
           | Inr (s2, lines, st2) \<Rightarrow>
               Inr (s2, (joinPath ''/site/public/images'' ''IMG.JPG'', Error ?e) # lines, st2))"
    using md en rs by auto
  show ?thesis
    using md en tf r c p fl [unfolded fs2]
    by (simp add: jp diskOf_def)
qed

text \<open>
  Claim C2 as stated fails when the WebP sibling cannot be encoded: the error outcome is
  recorded, but the bytes of the file have changed from \<open>[1, 2, 3]\<close> to \<open>[2, 3]\<close>.
\<close>

theorem optimizeImage_sibling_error_counterexample:
  "optimizeImage (brokenWebpEnv noListing) ''t'' ''/site/public/images/a.jpg''
       (diskOf [(''/site/public/images/a.jpg'', [1, 2, 3])])
     = Inr (Error ''webp: unable to encode'',
            \<lparr>files = [''/site/public/images/a.jpg'' \<mapsto> [2, 3]],
             imageCache = Map.empty, cacheFile = None\<rparr>)
   \<and> files (diskOf [(''/site/public/images/a.jpg'', [1, 2, 3])]) ''/site/public/images/a.jpg''
       = Some [1, 2, 3]"
  by (simp add: optimizeImage_def ext_a_jpg supportedFormats_def diskOf_def
        isOptimized_def tryBlock_def brokenWebpEnv_def sampleEnv_def sampleMetadata_def
        sampleEncode_def resizeTo_def maxWidth_def newsMaxWidth_def formatOf_def toFile_def Let_def)

text \<open>
  Claim C3, at a file with an upper-case extension. The extension is lower-cased for the
  format test, so the file is a candidate, but the sibling path is computed by replacing
  the lower-cased extension in the path, where it does not occur: the sibling path is the
  path of the source. The original is replaced by the smaller result, the sibling encoding
  is refused, no file \<^verbatim>\<open>IMG.webp\<close> appears and no cache entry is written. The same
  replacement hits an earlier occurrence of the extension in the path, if there is one,
  instead of the final one.
\<close>

theorem optimizeImage_uppercase_extension:
  "lowerAscii (extname ''/site/public/images/IMG.JPG'') = ''.jpg''
   \<and> replaceFirst ''.jpg'' ''.webp'' ''/site/public/images/IMG.JPG'' = ''/site/public/images/IMG.JPG''
   \<and> replaceFirst ''.jpg'' ''.webp'' ''/srv/shots.jpg/public/images/a.jpg''
       = ''/srv/shots.webp/public/images/a.jpg''
   \<and> optimizeImage (sampleEnv noListing) ''t'' ''/site/public/images/IMG.JPG''
       (diskOf [(''/site/public/images/IMG.JPG'', [1, 2, 3])])
     = Inr (Error ''Cannot use same file for input and output'',
            \<lparr>files = [''/site/public/images/IMG.JPG'' \<mapsto> [2, 3]],
             imageCache = Map.empty, cacheFile = None\<rparr>)"
  by (simp add: optimizeImage_def ext_IMG_JPG supportedFormats_def diskOf_def
        isOptimized_def tryBlock_def sampleEnv_def sampleMetadata_def
        sampleEncode_def resizeTo_def maxWidth_def newsMaxWidth_def formatOf_def toFile_def Let_def)

text \<open>The successful path at a JPEG of three bytes: the file shrinks to two bytes, the
  sibling \<^verbatim>\<open>a.webp\<close> is written, and the cache entry has the sizes 3 and 2.\<close>

theorem optimizeImage_shrinks_witness:
  "optimizeImage (sampleEnv noListing) ''t'' ''/site/public/images/a.jpg''
       (diskOf [(''/site/public/images/a.jpg'', [1, 2, 3])])
     = Inr (Success False 3 2 1,
            \<lparr>files = [''/site/public/images/a.jpg'' \<mapsto> [2, 3],
                      ''/site/public/images/a.webp'' \<mapsto> [3]],
             imageCache = [''/site/public/images/a.jpg'' \<mapsto>
               \<lparr>hash = sampleHash [2, 3], optimized = True, originalSize = 3,
                optimizedSize = 2, timestamp = ''t''\<rparr>],
             cacheFile = None\<rparr>)"
proof -
  let ?fp = "''/site/public/images/a.jpg''"
  let ?st = "diskOf [(?fp, [1, 2, 3])]"
  let ?env = "sampleEnv noListing"
  have f: "files ?st ?fp = Some [1, 2, 3]"
    by (simp add: diskOf_def)
  have e: "formatOf (lowerAscii (extname ?fp)) = Some Jpeg"
    by (simp add: ext_a_jpg formatOf_def)
  have m: "\<not> isOptimized (imageCache ?st) ?fp (fileHash ?env [1, 2, 3])"
    by (simp add: diskOf_def isOptimized_def)
  have md: "metadata ?env [1, 2, 3] = Inr (Some 800)"
    by (simp add: sampleEnv_def sampleMetadata_def)
  have en: "encode ?env Jpeg (resizeTo ?fp (Some 800)) [1, 2, 3] = Inr [2, 3]"
    by (simp add: sampleEnv_def sampleEncode_def)
  have sm: "length [2, 3::nat] < length [1, 2, 3::nat]" by simp
  have wb: "encode ?env Webp None [2, 3] = Inr [3]"
    by (simp add: sampleEnv_def sampleEncode_def)
  from optimizeImage_shrinks [OF f e m md en sm, where w = "[3]" and ts = "''t''"] wb
  show ?thesis
    by (simp add: ext_a_jpg resizeTo_def maxWidth_def newsMaxWidth_def diskOf_def sampleEnv_def
        numeral_2_eq_2 numeral_3_eq_3)
qed

lemma prefix_butlast: "prefix p xs \<Longrightarrow> length p < length xs \<Longrightarrow> prefix p (butlast xs)"
  by (auto simp: prefix_def butlast_append)

lemma replaceFirst_at_end:
  "ext \<noteq> [] \<Longrightarrow> \<not> includesStr (butlast (stem @ ext)) ext \<Longrightarrow>
   replaceFirst ext rep (stem @ ext) = stem @ rep"
proof (induction stem)
  case Nil
  then show ?case by (cases ext) auto
next
  case (Cons a stem)
  have bl: "butlast ((a # stem) @ ext) = a # butlast (stem @ ext)"
    using Cons.prems(1) by simp
  from Cons.prems(2) have np: "\<not> prefix ext (a # butlast (stem @ ext))"
    and ni: "\<not> includesStr (butlast (stem @ ext)) ext"
    unfolding bl by auto
  have "\<not> prefix ext (a # stem @ ext)"
  proof
    assume p: "prefix ext (a # stem @ ext)"
    have "length ext < length (a # stem @ ext)" by simp
    from prefix_butlast [OF p this] np bl show False by simp
  qed
  with Cons.IH [OF Cons.prems(1) ni] show ?case by simp
qed

text \<open>
  When the path ends in its lower-case extension and the extension occurs nowhere
  earlier in the path, the sibling path is the same path with the extension replaced by
  \<^verbatim>\<open>.webp\<close>: the same basename with a \<^verbatim>\<open>.webp\<close> extension.
\<close>

theorem siblingPath_same_basename:
  assumes "lowerAscii (extname filepath) = ext" and "ext \<noteq> []"
      and "filepath = stem @ ext"
      and "\<not> includesStr (butlast filepath) ext"
  shows "siblingPath filepath = stem @ ''.webp''"
  using assms replaceFirst_at_end [of ext stem "''.webp''"]
  by (simp add: siblingPath_def)

theorem siblingPath_same_basename_witness:
  "lowerAscii (extname ''/site/public/images/a.jpg'') = ''.jpg''
   \<and> ''/site/public/images/a.jpg'' = ''/site/public/images/a'' @ ''.jpg''
   \<and> \<not> includesStr (butlast ''/site/public/images/a.jpg'') ''.jpg''
   \<and> siblingPath ''/site/public/images/a.jpg'' = ''/site/public/images/a.webp''"
proof -
  have i: "\<not> includesStr (butlast ''/site/public/images/a.jpg'') ''.jpg''" by simp
  have n: "''.jpg'' \<noteq> []" by simp
  have s: "''/site/public/images/a.jpg'' = ''/site/public/images/a'' @ ''.jpg''" by simp
  from siblingPath_same_basename [OF ext_a_jpg n s i] ext_a_jpg i show ?thesis by simp
qed

section \<open>Properties of the optimizer: a run\<close>

lemma tryBlock_metadata_error:
  "files st g = Some img \<Longrightarrow> metadata env img = Inl e \<Longrightarrow>
   tryBlock env ts g ext h n st = Inl (e, st)"
  by (simp add: tryBlock_def)

lemma tryBlock_encode_error:
  "files st g = Some img \<Longrightarrow> formatOf ext = Some fmt \<Longrightarrow> metadata env img = Inr width \<Longrightarrow>
   encode env fmt (resizeTo g width) img = Inl e \<Longrightarrow>
   tryBlock env ts g ext h n st = Inl (e, st)"
  by (simp add: tryBlock_def toFile_def)

lemma tryBlock_discard:
  assumes "files st g = Some img" and "formatOf ext = Some fmt"
      and "metadata env img = Inr width"
      and "encode env fmt (resizeTo g width) img = Inr temp"
      and "\<not> length temp < length img"
  shows "tryBlock env ts g ext h (length img) st =
           Inr (Skipped NoImprovement,
                st\<lparr>files := (files st)(g @ ''.tmp'' := None),
                   imageCache := (imageCache st)(g \<mapsto>
                     \<lparr>hash = h, optimized = True,
                      originalSize = length img, optimizedSize = length img,
                      timestamp = ts\<rparr>)\<rparr>)"
  using assms by (simp add: tryBlock_def toFile_def Let_def)

lemma tryBlock_commit:
  assumes "files st g = Some img" and "formatOf ext = Some fmt"
      and "metadata env img = Inr width"
      and "encode env fmt (resizeTo g width) img = Inr temp"
      and "length temp < length img"
  shows "tryBlock env ts g ext h (length img) st =
           (case (if ext \<noteq> ''.webp''
                  then toFile (encode env Webp None) g (replaceFirst ext ''.webp'' g)
                         ((files st)(g \<mapsto> temp, g @ ''.tmp'' := None))
                  else Inr ((files st)(g \<mapsto> temp, g @ ''.tmp'' := None))) of
              Inl e \<Rightarrow> Inl (e, st\<lparr>files := (files st)(g \<mapsto> temp, g @ ''.tmp'' := None)\<rparr>)
            | Inr fs3 \<Rightarrow>
                (case fs3 g of
                   None \<Rightarrow> Inl (''ENOENT'', st\<lparr>files := fs3\<rparr>)
                 | Some now \<Rightarrow>
                     Inr (Success (resizeTo g width \<noteq> None) (length img) (length temp)
                            (int (length img) - int (length temp)),
                          st\<lparr>files := fs3,
                             imageCache := (imageCache st)(g \<mapsto>
                               \<lparr>hash = fileHash env now, optimized = True,
                                originalSize = length img, optimizedSize = length temp,
                                timestamp = ts\<rparr>)\<rparr>)))"
  using assms by (simp add: tryBlock_def toFile_def Let_def fun_upd_twist del: not_None_eq)

lemma after_commit_success:
  assumes "(case (case r of
                 Inl e \<Rightarrow> Inl (e, st\<lparr>files := fs2\<rparr>)
               | Inr fs3 \<Rightarrow>
                   (case fs3 g of
                      None \<Rightarrow> Inl (''ENOENT'', st\<lparr>files := fs3\<rparr>)
                    | Some now \<Rightarrow>
                        Inr (res, st\<lparr>files := fs3, imageCache := (imageCache st)(g \<mapsto>
                                  \<lparr>hash = hf now, optimized = True,
                                   originalSize = a, optimizedSize = b,
                                   timestamp = ts\<rparr>)\<rparr>))) of
              Inl (message, st') \<Rightarrow> Inr (Error message, st')
            | Inr r \<Rightarrow> Inr r) = Inr (Success x1 x2 x3 x4, st')"
  shows "\<exists>now. files st' g = Some now \<and> isOptimized (imageCache st') g (hf now)"
proof (cases r)
  case (Inl e)
  with assms show ?thesis by simp
next
  case (Inr fs3)
  with assms show ?thesis by (cases "fs3 g") (auto simp: isOptimized_def)
qed

text \<open>
  After a success the cache entry of the file stores the hash of the file as it is now.
\<close>

lemma optimizeImage_success_hit:
  assumes run: "optimizeImage env ts g st = Inr (Success x1 x2 x3 x4, st')"
  shows "cacheHit (fileHash env) g st'"
proof -
  have sup: "lowerAscii (extname g) \<in> set supportedFormats"
    using run by (auto simp: optimizeImage_def Let_def split: if_splits)
  then obtain fmt where fmt: "formatOf (lowerAscii (extname g)) = Some fmt"
    by (auto simp: formatOf_def supportedFormats_def)
  from run sup obtain img where img: "files st g = Some img"
    by (auto simp: optimizeImage_def Let_def split: option.splits)
  have nohit: "\<not> isOptimized (imageCache st) g (fileHash env img)"
    using run sup img by (auto simp: optimizeImage_def Let_def)
  have miss: "optimizeImage env ts g st =
           (case tryBlock env ts g (lowerAscii (extname g)) (fileHash env img) (length img) st of
              Inl (message, st') \<Rightarrow> Inr (Error message, st')
            | Inr r \<Rightarrow> Inr r)"
    using img sup nohit by (simp add: optimizeImage_def Let_def)
  obtain width where md: "metadata env img = Inr width"
    using run by (cases "metadata env img") (auto simp: miss tryBlock_metadata_error [OF img])
  obtain temp where enc: "encode env fmt (resizeTo g width) img = Inr temp"
    using run by (cases "encode env fmt (resizeTo g width) img")
      (auto simp: miss tryBlock_encode_error [OF img fmt md])
  have small: "length temp < length img"
    using run by (cases "length temp < length img")
      (auto simp: miss tryBlock_discard [OF img fmt md enc])
  note eq = run [unfolded miss tryBlock_commit [OF img fmt md enc small]]
  from after_commit_success [OF eq] sup show ?thesis
    by (auto simp: cacheHit_def)
qed

lemma optimizeImage_hit:
  assumes "cacheHit (fileHash env) f st"
  shows "optimizeImage env ts f st = Inr (Skipped AlreadyOptimized, st)"
  using assms by (auto simp: cacheHit_def optimizeImage_def Let_def split: option.splits)

lemma isOptimized_iff:
  "isOptimized cache f h = (\<exists>c. cache f = Some c \<and> hash c = h \<and> optimized c)"
  by (auto simp: isOptimized_def split: option.splits)

lemma cacheHit_frame:
  assumes "cacheHit hf f st" "files st' f = files st f" "imageCache st' f = imageCache st f"
  shows "cacheHit hf f st'"
  using assms by (auto simp: cacheHit_def isOptimized_iff split: option.splits)

lemma ext_a_webp: "lowerAscii (extname ''/site/public/images/a.webp'') = ''.webp''"
  by (simp add: extname_def basename_def lowerAscii_def lowerAsciiChar_def Let_def)
lemma ext_n_webp: "lowerAscii (extname ''a.webp'') = ''.webp''"
  by (simp add: extname_def basename_def lowerAscii_def lowerAsciiChar_def Let_def)
lemma ext_n_jpg: "lowerAscii (extname ''a.jpg'') = ''.jpg''"
  by (simp add: extname_def basename_def lowerAscii_def lowerAsciiChar_def Let_def)

lemmas eval_defs = main_def imageDirs_def loadCache_def saveCache_def processDirectory_def
  imagesOnly_def joinPath_def addStats_def countResult_def
  optimizeImage_def supportedFormats_def diskOf_def
  isOptimized_def tryBlock_def sampleEnv_def sampleMetadata_def sampleHash_def
  sampleEncode_def resizeTo_def maxWidth_def newsMaxWidth_def formatOf_def toFile_def Let_def

lemma sumSaved_Nil: "sumSaved [] = 0"
  by (simp add: sumSaved_def)

lemma sumSaved_Cons: "sumSaved ((p, out) # lines) = savedBytesOf out + sumSaved lines"
  by (simp add: sumSaved_def)

lemma sumSaved_append: "sumSaved (xs @ ys) = sumSaved xs + sumSaved ys"
  by (simp add: sumSaved_def)

lemma countResult_saved:
  "totalSaved s = Some (Num k) \<Longrightarrow>
   totalSaved (countResult out s) = Some (Num (k + savedBytesOf out))"
  by (cases out) (auto simp: countResult_def)

lemma processFiles_saved:
  "processFiles env ts d names s st = Inr (s', lines, st') \<Longrightarrow> totalSaved s = Some (Num k) \<Longrightarrow>
   totalSaved s' = Some (Num (k + sumSaved lines))"
proof (induction names arbitrary: s st lines k)
  case Nil
  then show ?case by (auto simp: sumSaved_Nil)
next
  case (Cons n names)
  from Cons.prems(1) obtain out st1 lines1 where
    step: "optimizeImage env ts (joinPath d n) st = Inr (out, st1)"
    and rest: "processFiles env ts d names (countResult out s) st1 = Inr (s', lines1, st')"
    and lines: "lines = (joinPath d n, out) # lines1"
    by (auto split: sum.splits)
  from Cons.IH [OF rest countResult_saved [OF Cons.prems(2)]] lines
  show ?case by (simp add: sumSaved_Cons)
qed

lemma processDirectory_saved:
  assumes "processDirectory env ts d st = Inr (s, lines, st')"
  shows "totalSaved s = (if hasImages env d then Some (Num (sumSaved lines)) else None)"
proof (cases "hasImages env d")
  case False
  with assms show ?thesis
    by (auto simp: processDirectory_def hasImages_def split: option.splits if_splits)
next
  case True
  then obtain listing where l: "readdir env d = Some listing"
    and ne: "filter (\<lambda>file. lowerAscii (extname file) \<in> set supportedFormats) listing \<noteq> []"
    by (auto simp: hasImages_def split: option.splits)
  from assms l ne have "processFiles env ts d
      (filter (\<lambda>file. lowerAscii (extname file) \<in> set supportedFormats) listing)
      \<lparr>processed = 0, skipped = 0, errors = 0, totalSaved = Some (Num 0)\<rparr> st = Inr (s, lines, st')"
    by (simp add: processDirectory_def)
  from processFiles_saved [OF this, of 0] True show ?thesis by simp
qed

lemma processDirs_saved:
  "processDirs env ts dirs acc st = Inr (acc', lines, st') \<Longrightarrow> totalSaved acc = Some v \<Longrightarrow>
   totalSaved acc' =
     Some (case v of
             Num k \<Rightarrow> if list_all (hasImages env) dirs then Num (k + sumSaved lines) else NaN
           | NaN \<Rightarrow> NaN)"
proof (induction dirs arbitrary: acc st lines v)
  case Nil
  then show ?case by (auto simp: sumSaved_Nil split: jsnumber.splits)
next
  case (Cons d dirs)
  from Cons.prems(1) obtain s lines1 st1 lines2 where
    dir: "processDirectory env ts d st = Inr (s, lines1, st1)"
    and rest: "processDirs env ts dirs (addStats acc s) st1 = Inr (acc', lines2, st')"
    and lines: "lines = lines1 @ lines2"
    by (auto split: sum.splits)
  have ts: "totalSaved (addStats acc s) = Some (jsAdd (Some v) (totalSaved s))"
    using Cons.prems(2) by (simp add: addStats_def)
  note IH = Cons.IH [OF rest ts]
  note sv = processDirectory_saved [OF dir]
  show ?case
  proof (cases v)
    case NaN
    with IH show ?thesis by simp
  next
    case (Num k)
    show ?thesis
    proof (cases "hasImages env d")
      case True
      with IH sv Num lines show ?thesis by (simp add: sumSaved_append add.assoc)
    next
      case False
      with IH sv Num show ?thesis by simp
    qed
  qed
qed

text \<open>
  The field \<^verbatim>\<open>totalSaved\<close> of the summary: the sum of the bytes saved over all successes
  when every configured directory exists and lists a supported image, and NaN as soon
  as one of them does not.
\<close>

theorem main_totalSaved:
  assumes "main env ts root st = Inr (summary, lines, st')"
  shows "totalSaved summary =
           Some (if list_all (hasImages env) (imageDirs root) then Num (sumSaved lines) else NaN)"
proof -
  from assms obtain st1 where
    "processDirs env ts (imageDirs root)
       \<lparr>processed = 0, skipped = 0, errors = 0, totalSaved = Some (Num 0)\<rparr> (loadCache st)
     = Inr (summary, lines, st1)"
    by (auto simp: main_def split: sum.splits)
  from processDirs_saved [OF this, of "Num 0"] show ?thesis by simp
qed

lemma ext_readme: "lowerAscii (extname ''README.md'') = ''.md''"
  by (simp add: extname_def basename_def lowerAscii_def lowerAsciiChar_def Let_def)

lemma runTwice_SomeD:
  assumes "runTwice env1 env2 ts1 ts2 root st = Some (lines1, total2, lines2)"
  obtains total1 st1 st2 where
    "main env1 ts1 root st = Inr (total1, lines1, st1)"
    "main env2 ts2 root st1 = Inr (total2, lines2, st2)"
  using assms by (auto simp: runTwice_def split: sum.splits)

text \<open>With an image in each of the two directories the summary has the sum, two bytes.\<close>

theorem main_totalSaved_witness:
  "map_sum fst (\<lambda>(summary, lines, st). (summary, sumSaved lines))
     (main (sampleEnv (twoDirs [''a.jpg''] [''a.webp''])) ''t'' ''/site''
        (diskOf [(''/site/public/images/a.jpg'', [1, 2, 3]),
                 (''/site/public/images/news/a.webp'', [4, 5])]))
   = Inr (\<lparr>processed = 2, skipped = 0, errors = 0, totalSaved = Some (Num 2)\<rparr>, 2)
   \<and> list_all (hasImages (sampleEnv (twoDirs [''a.jpg''] [''a.webp'']))) (imageDirs ''/site'')"
proof -
  let ?env = "sampleEnv (twoDirs [''a.jpg''] [''a.webp''])"
  let ?st = "diskOf [(''/site/public/images/a.jpg'', [1, 2, 3]),
                 (''/site/public/images/news/a.webp'', [4, 5])]"
  have ext_news: "lowerAscii (extname ''/site/public/images/news/a.webp'') = ''.webp''"
    by (simp add: extname_def basename_def lowerAscii_def lowerAsciiChar_def Let_def)
  have h: "list_all (hasImages ?env) (imageDirs ''/site'')"
    by (simp add: hasImages_def imageDirs_def sampleEnv_def twoDirs_def ext_n_jpg ext_n_webp
        supportedFormats_def)
  obtain summary lines st' where
    r: "main ?env ''t'' ''/site'' ?st = Inr (summary, lines, st')"
    and l: "lines = [(''/site/public/images/a.jpg'', Success False 3 2 1),
                    (''/site/public/images/news/a.webp'', Success False 2 1 1)]"
    and s: "summary = \<lparr>processed = 2, skipped = 0, errors = 0, totalSaved = Some (Num 2)\<rparr>"
    by (simp add: eval_defs twoDirs_def ext_a_jpg ext_n_jpg ext_n_webp ext_news)
  from main_totalSaved [OF r] h r l s show ?thesis
    by (simp add: sumSaved_def)
qed

text \<open>
  Claim C8, at a run where the directory \<^verbatim>\<open>news\<close> does not exist, and at one where it
  exists without a supported image: the one image of the other directory is processed
  and saves one byte, and the summary's \<^verbatim>\<open>totalSaved\<close> is NaN.
\<close>

theorem main_totalSaved_NaN:
  "map_sum fst (\<lambda>(summary, lines, st). (summary, lines, sumSaved lines))
     (main (sampleEnv (imagesOnly [''a.jpg''])) ''t'' ''/site''
        (diskOf [(''/site/public/images/a.jpg'', [1, 2, 3])]))
   = Inr (\<lparr>processed = 1, skipped = 0, errors = 0, totalSaved = Some NaN\<rparr>,
          [(''/site/public/images/a.jpg'', Success False 3 2 1)], 1)
   \<and> readdir (sampleEnv (imagesOnly [''a.jpg''])) ''/site/public/images/news'' = None
   \<and> map_sum fst (\<lambda>(summary, lines, st). (summary, lines, sumSaved lines))
     (main (sampleEnv (twoDirs [''a.jpg''] [''README.md''])) ''t'' ''/site''
        (diskOf [(''/site/public/images/a.jpg'', [1, 2, 3])]))
   = Inr (\<lparr>processed = 1, skipped = 0, errors = 0, totalSaved = Some NaN\<rparr>,
          [(''/site/public/images/a.jpg'', Success False 3 2 1)], 1)"
  by (simp add: eval_defs twoDirs_def ext_a_jpg ext_n_jpg ext_readme sumSaved_def)

section \<open>Properties of the optimizer: what a call leaves as it is\<close>

text \<open>The temporary file of an image has no supported extension, so it is never the path
  of an image.\<close>


lemma basename_tmp: "basename (g @ ''.tmp'') = basename g @ ''.tmp''"
  by (simp add: basename_def)

lemma extname_tmp: "extname (g @ ''.tmp'') = [] \<or> extname (g @ ''.tmp'') = ''.tmp''"
  by (simp add: extname_def basename_tmp Let_def)

lemma tmp_unsupported: "lowerAscii (extname (g @ ''.tmp'')) \<notin> set supportedFormats"
  using extname_tmp [of g]
  by (auto simp: supportedFormats_def lowerAscii_def lowerAsciiChar_def)

lemma supported_not_tmp:
  "lowerAscii (extname f) \<in> set supportedFormats \<Longrightarrow> f \<noteq> g @ ''.tmp''"
  using tmp_unsupported by blast

lemma toFile_Inr:
  assumes "toFile enc g sp fs = Inr fs'"
  shows "sp \<noteq> g \<and> (\<exists>b. fs' = fs(sp \<mapsto> b))"
  using assms by (auto simp: toFile_def split: if_splits option.splits sum.splits)

lemma after_commit_frame:
  assumes ne: "f \<noteq> g" "f \<noteq> g @ ''.tmp''"
      and sib: "isSuccess out \<longrightarrow> f \<noteq> sp"
      and eq: "(case (case (if w then toFile enc g sp fs2 else Inr fs2) of
                 Inl e \<Rightarrow> Inl (e, st\<lparr>files := fs2\<rparr>)
               | Inr fs3 \<Rightarrow>
                   (case fs3 g of
                      None \<Rightarrow> Inl (''ENOENT'', st\<lparr>files := fs3\<rparr>)
                    | Some now \<Rightarrow>
                        Inr (Success x1 x2 x3 x4, st\<lparr>files := fs3, imageCache := (imageCache st)(g \<mapsto>
                                  \<lparr>hash = hf now, optimized = True,
                                   originalSize = a, optimizedSize = b,
                                   timestamp = ts\<rparr>)\<rparr>))) of
              Inl (message, st') \<Rightarrow> Inr (Error message, st')
            | Inr r \<Rightarrow> Inr r) = Inr (out, st')"
      and fs2: "fs2 f = files st f" and g2: "fs2 g = Some temp"
  shows "files st' f = files st f \<and> imageCache st' f = imageCache st f \<and> cacheFile st' = cacheFile st"
proof (cases "if w then toFile enc g sp fs2 else Inr fs2")
  case (Inl e)
  with eq ne fs2 show ?thesis by auto
next
  case (Inr fs3)
  have g3: "fs3 g = Some temp"
    using Inr g2 by (auto dest!: toFile_Inr split: if_splits)
  with Inr eq have out: "out = Success x1 x2 x3 x4"
    and st': "st' = st\<lparr>files := fs3, imageCache := (imageCache st)(g \<mapsto>
                                  \<lparr>hash = hf temp, optimized = True,
                                   originalSize = a, optimizedSize = b,
                                   timestamp = ts\<rparr>)\<rparr>"
    by auto
  from out sib have "f \<noteq> sp" by simp
  then have "fs3 f = fs2 f"
    using Inr by (auto dest!: toFile_Inr split: if_splits)
  with st' fs2 ne show ?thesis by simp
qed

lemma optimizeImage_frame:
  assumes run: "optimizeImage env ts g st = Inr (out, st')"
      and ne: "f \<noteq> g" "f \<noteq> g @ ''.tmp''"
      and sib: "isSuccess out \<longrightarrow> f \<noteq> siblingPath g"
  shows "files st' f = files st f \<and> imageCache st' f = imageCache st f \<and> cacheFile st' = cacheFile st"
proof (cases "lowerAscii (extname g) \<in> set supportedFormats")
  case False
  with run show ?thesis by (simp add: optimizeImage_def)
next
  case True
  then obtain fmt where fmt: "formatOf (lowerAscii (extname g)) = Some fmt"
    by (auto simp: formatOf_def supportedFormats_def)
  from run True obtain img where img: "files st g = Some img"
    by (auto simp: optimizeImage_def Let_def split: option.splits)
  show ?thesis
  proof (cases "isOptimized (imageCache st) g (fileHash env img)")
    case True
    with run \<open>lowerAscii (extname g) \<in> set supportedFormats\<close> img show ?thesis
      by (simp add: optimizeImage_def Let_def)
  next
    case False
    have miss: "optimizeImage env ts g st =
           (case tryBlock env ts g (lowerAscii (extname g)) (fileHash env img) (length img) st of
              Inl (message, st') \<Rightarrow> Inr (Error message, st')
            | Inr r \<Rightarrow> Inr r)"
      using img True False by (simp add: optimizeImage_def Let_def)
    show ?thesis
    proof (cases "metadata env img")
      case (Inl e)
      with run show ?thesis
        by (simp add: miss tryBlock_metadata_error [OF img Inl])
    next
      case (Inr width)
      note md = this
      show ?thesis
      proof (cases "encode env fmt (resizeTo g width) img")
        case (Inl e)
        with run show ?thesis
          by (simp add: miss tryBlock_encode_error [OF img fmt md Inl])
      next
        case (Inr temp)
        note enc = Inr
        show ?thesis
        proof (cases "length temp < length img")
          case False
          with run ne show ?thesis
            by (auto simp: miss tryBlock_discard [OF img fmt md enc False])
        next
          case True
          have fs2: "((files st)(g \<mapsto> temp, g @ ''.tmp'' := None)) f = files st f"
            using ne by simp
          have g2: "((files st)(g \<mapsto> temp, g @ ''.tmp'' := None)) g = Some temp"
            by simp
          note eq = run [unfolded miss tryBlock_commit [OF img fmt md enc True]]
          show ?thesis
            by (rule after_commit_frame [OF ne sib [unfolded siblingPath_def] eq fs2 g2])
        qed
      qed
    qed
  qed
qed

text \<open>The lines of a run are the outcomes of consecutive calls of \<^verbatim>\<open>optimizeImage\<close>,
  from the state with the loaded cache to the state whose cache is saved.\<close>


lemma steps_append:
  "steps env ts st (xs @ ys) st' = (\<exists>st1. steps env ts st xs st1 \<and> steps env ts st1 ys st')"
  by (induction xs arbitrary: st) (auto split: sum.splits)

lemma steps_Cons:
  "steps env ts st ((g, out) # ls) st' =
     (\<exists>st1. optimizeImage env ts g st = Inr (out, st1) \<and> steps env ts st1 ls st')"
  by (auto split: sum.splits)

lemma processFiles_steps:
  "processFiles env ts d names s st = Inr (s', lines, st') \<Longrightarrow> steps env ts st lines st'"
proof (induction names arbitrary: s st lines)
  case Nil
  then show ?case by simp
next
  case (Cons n names)
  from Cons.prems obtain out st1 lines1 where
    step: "optimizeImage env ts (joinPath d n) st = Inr (out, st1)"
    and rest: "processFiles env ts d names (countResult out s) st1 = Inr (s', lines1, st')"
    and lines: "lines = (joinPath d n, out) # lines1"
    by (auto split: sum.splits)
  from Cons.IH [OF rest] step lines show ?case by (simp add: steps_Cons)
qed

lemma processDirectory_steps:
  "processDirectory env ts d st = Inr (s, lines, st') \<Longrightarrow> steps env ts st lines st'"
  by (auto simp: processDirectory_def Let_def split: option.splits if_splits
      dest: processFiles_steps)

lemma processDirs_steps:
  "processDirs env ts dirs acc st = Inr (acc', lines, st') \<Longrightarrow> steps env ts st lines st'"
proof (induction dirs arbitrary: acc st lines)
  case Nil
  then show ?case by simp
next
  case (Cons d dirs)
  from Cons.prems obtain s lines1 st1 lines2 where
    dir: "processDirectory env ts d st = Inr (s, lines1, st1)"
    and rest: "processDirs env ts dirs (addStats acc s) st1 = Inr (acc', lines2, st')"
    and lines: "lines = lines1 @ lines2"
    by (auto split: sum.splits)
  from processDirectory_steps [OF dir] Cons.IH [OF rest] lines show ?case
    by (auto simp: steps_append)
qed

lemma main_steps:
  assumes "main env ts root st = Inr (summary, lines, st')"
  obtains stA where "steps env ts (loadCache st) lines stA" "st' = saveCache env stA"
  using assms by (auto simp: main_def split: sum.splits dest: processDirs_steps)

lemma overwritten_Cons:
  "overwritten f ((g, out) # ls) =
     ((g \<noteq> f \<and> siblingPath g = f \<and> isSuccess out) \<or> overwritten f ls)"
  by (simp add: overwritten_def)

lemma overwritten_append:
  "overwritten f (xs @ ys) = (overwritten f xs \<or> overwritten f ys)"
  by (simp add: overwritten_def)

lemma optimizeImage_keeps_hit:
  assumes hit: "cacheHit (fileHash env) f st"
      and run: "optimizeImage env ts g st = Inr (out, st')"
      and ok: "\<not> (g \<noteq> f \<and> siblingPath g = f \<and> isSuccess out)"
  shows "cacheHit (fileHash env) f st' \<and> files st' f = files st f
       \<and> imageCache st' f = imageCache st f
       \<and> (g = f \<longrightarrow> out = Skipped AlreadyOptimized \<and> st' = st)"
proof (cases "g = f")
  case True
  with hit run show ?thesis by (simp add: optimizeImage_hit)
next
  case False
  have sup: "lowerAscii (extname f) \<in> set supportedFormats"
    using hit by (simp add: cacheHit_def)
  have ne: "f \<noteq> g" "f \<noteq> g @ ''.tmp''"
    using False supported_not_tmp [OF sup] by auto
  have sib: "isSuccess out \<longrightarrow> f \<noteq> siblingPath g"
    using ok False by auto
  from optimizeImage_frame [OF run ne sib] hit False show ?thesis
    by (auto intro: cacheHit_frame)
qed

lemma steps_keeps_hit:
  assumes "steps env ts st ls st'"
      and "cacheHit (fileHash env) f st"
      and "\<not> overwritten f ls"
  shows "cacheHit (fileHash env) f st' \<and> files st' f = files st f
       \<and> imageCache st' f = imageCache st f
       \<and> (\<forall>out. (f, out) \<in> set ls \<longrightarrow> out = Skipped AlreadyOptimized)"
  using assms
proof (induction ls arbitrary: st)
  case Nil
  then show ?case by simp
next
  case (Cons l ls)
  obtain g out where l: "l = (g, out)" by (cases l)
  from Cons.prems(1) have "steps env ts st ((g, out) # ls) st'" unfolding l .
  then obtain st1 where
    one: "optimizeImage env ts g st = Inr (out, st1)" and rest: "steps env ts st1 ls st'"
    unfolding steps_Cons by blast
  from Cons.prems(3) l have ok: "\<not> (g \<noteq> f \<and> siblingPath g = f \<and> isSuccess out)"
    and nov: "\<not> overwritten f ls"
    by (auto simp: overwritten_Cons)
  note k = optimizeImage_keeps_hit [OF Cons.prems(2) one ok]
  from k have h1: "cacheHit (fileHash env) f st1" by simp
  from Cons.IH [OF rest h1 nov] k l show ?case by auto
qed







lemma reload_hit:
  assumes "cacheHit hf f st" "cacheWritable env"
  shows "cacheHit hf f (loadCache (saveCache env st))"
  using assms by (auto simp: cacheHit_def loadCache_def saveCache_def isOptimized_iff split: option.splits)

section \<open>Properties of the optimizer: files with an up-to-date cache entry\<close>




section \<open>Properties of the optimizer: two runs\<close>

text \<open>
  Claim C5, as amended. Take a first run that comes to its end, prints a success for a
  file and writes the cache file, and a second run from the state the first one left,
  with the same hash function. Provided that no other file whose WebP sibling path is
  the path of this file is processed successfully after that success in the first run,
  or before the line of the file in the second run, the second run prints for the file
  the skip as already optimized, so the file is not counted as processed.
\<close>

theorem second_run_skips:
  assumes run1: "main env ts1 root st0 = Inr (total1, lines1, st1)"
      and ok: "lines1 = pre1 @ (f, Success resized origSize optSize savedBytes) # post1"
      and alone1: "\<not> overwritten f post1"
      and saved: "cacheWritable env"
      and run2: "main env2 ts2 root st1 = Inr (total2, lines2, st2)"
      and hf: "fileHash env2 = fileHash env"
      and listed: "lines2 = pre2 @ (f, out) # post2"
      and alone2: "\<not> overwritten f pre2"
  shows "out = Skipped AlreadyOptimized"
proof -
  from run1 obtain stA where
    s1: "steps env ts1 (loadCache st0) lines1 stA" and fin1: "st1 = saveCache env stA"
    by (rule main_steps)
  from s1 obtain sa sb where
    one: "optimizeImage env ts1 f sa = Inr (Success resized origSize optSize savedBytes, sb)"
    and rest: "steps env ts1 sb post1 stA"
    unfolding ok steps_append steps_Cons by blast
  from one have "cacheHit (fileHash env) f sb" by (rule optimizeImage_success_hit)
  with rest alone1 have "cacheHit (fileHash env) f stA"
    using steps_keeps_hit by blast
  then have "cacheHit (fileHash env) f (loadCache st1)"
    unfolding fin1 using saved by (rule reload_hit)
  then have hit2: "cacheHit (fileHash env2) f (loadCache st1)" by (simp add: hf)
  from run2 obtain stB where s2: "steps env2 ts2 (loadCache st1) lines2 stB"
    by (rule main_steps)
  from s2 obtain sc sd where
    before: "steps env2 ts2 (loadCache st1) pre2 sc"
    and two: "optimizeImage env2 ts2 f sc = Inr (out, sd)"
    unfolding listed steps_append steps_Cons by blast
  from steps_keeps_hit [OF before hit2 alone2] have "cacheHit (fileHash env2) f sc" by simp
  then have "optimizeImage env2 ts2 f sc = Inr (Skipped AlreadyOptimized, sc)"
    by (rule optimizeImage_hit)
  with two show ?thesis by simp
qed

text \<open>
  The theorem at a directory with \<^verbatim>\<open>a.jpg\<close> and \<^verbatim>\<open>a.webp\<close>, listed in this order in
  both runs, for the file \<^verbatim>\<open>a.webp\<close>. The first run writes the sibling of \<^verbatim>\<open>a.jpg\<close>
  over \<^verbatim>\<open>a.webp\<close> and then processes \<^verbatim>\<open>a.webp\<close> successfully; the second run skips
  both files.
\<close>

theorem second_run_skips_witness:
  "runTwice (sampleEnv (imagesOnly [''a.jpg'', ''a.webp''])) (sampleEnv (imagesOnly [''a.jpg'', ''a.webp'']))
       ''t1'' ''t2'' ''/site''
       (diskOf [(''/site/public/images/a.jpg'', [1, 2, 3, 4]), (''/site/public/images/a.webp'', [5, 6, 7])])
     = Some ([(''/site/public/images/a.jpg'', Success False 4 3 1)]
               @ (''/site/public/images/a.webp'', Success False 2 1 1) # [],
             \<lparr>processed = 0, skipped = 2, errors = 0, totalSaved = Some NaN\<rparr>,
             [(''/site/public/images/a.jpg'', Skipped AlreadyOptimized)]
               @ (''/site/public/images/a.webp'', Skipped AlreadyOptimized) # [])
   \<and> \<not> overwritten ''/site/public/images/a.webp'' []
   \<and> cacheWritable (sampleEnv (imagesOnly [''a.jpg'', ''a.webp'']))
   \<and> \<not> overwritten ''/site/public/images/a.webp''
          [(''/site/public/images/a.jpg'', Skipped AlreadyOptimized)]"
proof -
  let ?env = "sampleEnv (imagesOnly [''a.jpg'', ''a.webp''])"
  let ?f = "''/site/public/images/a.webp''"
  let ?g = "''/site/public/images/a.jpg''"
  have two: "runTwice ?env ?env ''t1'' ''t2'' ''/site'' (diskOf [(?g, [1, 2, 3, 4]), (?f, [5, 6, 7])])
     = Some ([(?g, Success False 4 3 1), (?f, Success False 2 1 1)],
             \<lparr>processed = 0, skipped = 2, errors = 0, totalSaved = Some NaN\<rparr>,
             [(?g, Skipped AlreadyOptimized), (?f, Skipped AlreadyOptimized)])"
    by (simp add: runTwice_def eval_defs ext_a_webp ext_a_jpg ext_n_webp ext_n_jpg)
  have w: "cacheWritable ?env" by (simp add: sampleEnv_def)
  have a1: "\<not> overwritten ?f []" by (simp add: overwritten_def)
  have a2: "\<not> overwritten ?f [(?g, Skipped AlreadyOptimized)]" by (simp add: overwritten_def)
  from two obtain total1 st1 st2 where
    r1: "main ?env ''t1'' ''/site'' (diskOf [(?g, [1, 2, 3, 4]), (?f, [5, 6, 7])])
       = Inr (total1, [(?g, Success False 4 3 1), (?f, Success False 2 1 1)], st1)"
    and r2: "main ?env ''t2'' ''/site'' st1
       = Inr (\<lparr>processed = 0, skipped = 2, errors = 0, totalSaved = Some NaN\<rparr>,
              [(?g, Skipped AlreadyOptimized), (?f, Skipped AlreadyOptimized)], st2)"
    by (rule runTwice_SomeD)
  have l1: "[(?g, Success False 4 3 1), (?f, Success False 2 1 1)]
      = [(?g, Success False 4 3 1)] @ (?f, Success False 2 1 1) # []" by simp
  have l2: "[(?g, Skipped AlreadyOptimized), (?f, Skipped AlreadyOptimized)]
      = [(?g, Skipped AlreadyOptimized)] @ (?f, Skipped AlreadyOptimized) # []" by simp
  from second_run_skips [OF r1 l1 a1 w r2 refl l2 a2] two w a1 a2 show ?thesis
    by simp
qed

text \<open>
  Claim C5 as stated fails where the cache file cannot be written, which \<^verbatim>\<open>saveCache\<close>
  reports as a warning and passes over. The second run starts with an empty cache,
  re-encodes the file that the first run processed successfully and counts it as
  processed: its summary has \<open>processed = 1\<close>.
\<close>

theorem second_run_unsaved_cache_counterexample:
  "map_option (\<lambda>(lines1, total2, lines2). (lines1, processed total2, lines2))
     (runTwice (readOnlyCacheEnv (imagesOnly [''a.jpg'']))
        (readOnlyCacheEnv (imagesOnly [''a.jpg'']))
        ''t1'' ''t2'' ''/site''
        (diskOf [(''/site/public/images/a.jpg'', [1, 2, 3])]))
   = Some ([(''/site/public/images/a.jpg'', Success False 3 2 1)],
           1,
           [(''/site/public/images/a.jpg'', Success False 2 1 1)])"
  by (simp add: runTwice_def eval_defs readOnlyCacheEnv_def ext_a_jpg ext_n_jpg)

text \<open>
  The proviso on siblings is met by every listing in which \<^verbatim>\<open>a.jpg\<close> comes before
  \<^verbatim>\<open>a.webp\<close>. \<^verbatim>\<open>readdirSync\<close> promises no order, and the script does not sort: where
  the listing gives \<^verbatim>\<open>a.webp\<close> first, the first run processes both files
  successfully, the sibling written for \<^verbatim>\<open>a.jpg\<close> overwrites the \<^verbatim>\<open>a.webp\<close> just
  optimized, whose cache entry keeps the old hash, and the second run re-encodes
  \<^verbatim>\<open>a.webp\<close>.
\<close>

theorem sibling_written_after_processing:
  "map_option (\<lambda>(lines1, total2, lines2). (lines1, processed total2, lines2))
     (runTwice (sampleEnv (imagesOnly [''a.webp'', ''a.jpg'']))
        (sampleEnv (imagesOnly [''a.webp'', ''a.jpg'']))
        ''t1'' ''t2'' ''/site''
        (diskOf [(''/site/public/images/a.webp'', [1, 2, 3, 4, 5, 6]),
                 (''/site/public/images/a.jpg'', [9, 9, 9, 9])]))
   = Some ([(''/site/public/images/a.webp'', Success False 6 5 1),
            (''/site/public/images/a.jpg'', Success False 4 3 1)],
           1,
           [(''/site/public/images/a.webp'', Success False 2 1 1),
            (''/site/public/images/a.jpg'', Skipped AlreadyOptimized)])
   \<and> overwritten ''/site/public/images/a.webp''
        [(''/site/public/images/a.jpg'', Success False 4 3 1)]"
  by (simp add: runTwice_def eval_defs overwritten_def siblingPath_def replaceFirst_at_end
      ext_a_webp ext_a_jpg ext_n_webp ext_n_jpg)

end
